theory Spec2Isabelle
  imports Main "HOL-Library.Word"
begin

unbundle bit_operations_syntax

section \<open>Data model\<close>

text \<open>
  Bytes are \<open>uint8_t\<close>, key-schedule words \<open>uint32_t\<close>, key words and nonces
  \<open>uint64_t\<close>.  A \<open>std::string\<close> is a sequence of bytes (it may hold NUL bytes).
  Round counts and loop indices are \<open>nat\<close>: the only values that reach the arithmetic
  are 10, 12 and 14 (everything else is rejected by \<open>Schedule\<close> first), so no
  wrap-around can occur on them; where the source relies on \<open>size_t\<close> wrap-around
  (\<open>InvShiftRows\<close>) it is written out.
\<close>

type_synonym byte = "8 word"
type_synonym word32 = "32 word"
type_synonym word64 = "64 word"
type_synonym str = "byte list"

text \<open>\<open>std::array<T, 4>\<close>: four cells, read by index.\<close>

datatype 'a arr4 = Arr4 'a 'a 'a 'a

fun at4 :: "'a arr4 \<Rightarrow> nat \<Rightarrow> 'a" where
  "at4 (Arr4 a b c d) i = (if i = 0 then a else if i = 1 then b else if i = 2 then c else d)"

definition mk4 :: "(nat \<Rightarrow> 'a) \<Rightarrow> 'a arr4" where
  "mk4 f = Arr4 (f 0) (f 1) (f 2) (f 3)"

text \<open>
  The 4x4 byte matrix of \<open>state_array\<close>; \<open>cell s i j\<close> is \<open>array[i][j]\<close> and
  \<open>build f\<close> is the matrix whose cell \<open>[i][j]\<close> is \<open>f i j\<close> (a loop nest that
  writes every cell once).
\<close>

type_synonym state_array = "byte arr4 arr4"

definition cell :: "state_array \<Rightarrow> nat \<Rightarrow> nat \<Rightarrow> byte" where
  "cell s i j = at4 (at4 s i) j"

definition build :: "(nat \<Rightarrow> nat \<Rightarrow> byte) \<Rightarrow> state_array" where
  "build f = mk4 (\<lambda>i. mk4 (\<lambda>j. f i j))"

definition put :: "state_array \<Rightarrow> nat \<Rightarrow> nat \<Rightarrow> byte \<Rightarrow> state_array" where
  "put s i j v = build (\<lambda>a b. if a = i \<and> b = j then v else cell s a b)"

text \<open>
  Every \<open>throw std::runtime_error\<close> of the sources is a value of \<open>error\<close>:
  \<open>InvalidKeySize\<close> is "Invalid key size:" of \<open>state::Schedule\<close>,
  \<open>AuthenticationFailure\<close> is "Message does not match! Refusing to decrypt!" of
  \<open>gcm::Dec\<close>, \<open>InvalidRoundCount\<close> and \<open>HMACFailed\<close> are the two of
  \<open>hmac::generate\<close>, \<open>ReadFailed\<close> is "Failed to read from socket!" of
  \<open>network::recv_value\<close>.  \<open>BackOfEmpty\<close> stands for \<open>back()\<close> on an empty
  vector, which C++ leaves undefined.
\<close>

datatype error =
    InvalidKeySize nat
  | AuthenticationFailure
  | BackOfEmpty
  | InvalidRoundCount
  | HMACFailed
  | ReadFailed

definition and_then :: "error + 'a \<Rightarrow> ('a \<Rightarrow> error + 'b) \<Rightarrow> error + 'b" where
  "and_then r f = (case r of Inl e \<Rightarrow> Inl e | Inr x \<Rightarrow> f x)"

section \<open>aes::gf\<close>

text \<open>
  \<open>gf::mult\<close>: the loop \<open>for (; b; b >>= 1)\<close>.  The assignment
  \<open>a = (a << 1) ^ 0b100011011\<close> is computed on the promoted \<open>int\<close> and truncated
  back to eight bits.
\<close>

function mult_loop :: "byte \<Rightarrow> byte \<Rightarrow> byte \<Rightarrow> byte" where
  "mult_loop res a b =
     (if b = 0 then res
      else mult_loop (if b AND 1 \<noteq> 0 then res XOR a else res)
             (if a AND 0x80 \<noteq> 0 then ucast (push_bit 1 (ucast a :: word32) XOR 0x11B)
              else push_bit 1 a)
             (drop_bit 1 b))"
  by pat_completeness auto
termination
proof (relation "measure (\<lambda>(res, a, b). unat b)")
  show "wf (measure (\<lambda>(res, a, b). unat b))" by simp
next
  fix res a b :: byte
  assume "b \<noteq> 0"
  then have "unat b \<noteq> 0" by (simp add: unat_eq_0)
  then have "unat b div 2 < unat b" by simp
  then show "((if b AND 1 \<noteq> 0 then res XOR a else res,
           if a AND 0x80 \<noteq> 0 then ucast (push_bit 1 (ucast a :: word32) XOR 0x11B)
           else push_bit 1 a,
           drop_bit 1 b), res, a, b) \<in> measure (\<lambda>(res, a, b). unat b)"
    by (simp add: drop_bit_eq_div unat_div)
qed

declare mult_loop.simps [simp del]

definition mult :: "byte \<Rightarrow> byte \<Rightarrow> byte" where
  "mult a b = mult_loop 0 a b"

text \<open>\<open>gf::inverse\<close>: the first \<open>x\<close> in 0..255 with \<open>mult(a, x) == 1\<close>, else 0.\<close>

definition inverse_gf :: "byte \<Rightarrow> byte" where
  "inverse_gf a =
     (case find (\<lambda>x. mult a (of_nat x) = 1) [0..<256] of
        Some x \<Rightarrow> of_nat x
      | None \<Rightarrow> 0)"

section \<open>aes::key\<close>

definition Rcon :: "word32 list" where
  "Rcon = [0x01000000, 0x02000000, 0x04000000, 0x08000000, 0x10000000,
           0x20000000, 0x40000000, 0x80000000, 0x1b000000, 0x36000000]"

text \<open>
  \<open>Rcon[j]\<close>.  The table has ten entries and \<open>Expansion\<close> reads \<open>Rcon[10]\<close> for
  a 128-bit key; C++ gives that read no value, so the word found behind the table is a
  parameter \<open>past\<close> of the model.
\<close>

definition Rcon_at :: "word32 \<Rightarrow> nat \<Rightarrow> word32" where
  "Rcon_at past j = (if j < 10 then Rcon ! j else past)"

definition RotWord :: "word32 \<Rightarrow> word32" where
  "RotWord word = word_rotl 8 word"

text \<open>
  The affine map of the S-box on a \<open>std::bitset<8>\<close>: bit \<open>x\<close> of the result is
  \<open>i[x] ^ i[(x+4)%8] ^ i[(x+5)%8] ^ i[(x+6)%8] ^ i[(x+7)%8] ^ c[x]\<close>; \<open>to_ulong\<close>
  reads the bits back, bit 0 least significant.
\<close>

definition to_ulong :: "bool list \<Rightarrow> byte" where
  "to_ulong bs = foldr (\<lambda>b w. (if b then 1 else 0) + 2 * w) bs 0"

definition affine :: "byte \<Rightarrow> byte" where
  "affine i =
     to_ulong (map (\<lambda>x. ((((bit i x \<noteq> bit i ((x + 4) mod 8)) \<noteq> bit i ((x + 5) mod 8))
                          \<noteq> bit i ((x + 6) mod 8)) \<noteq> bit i ((x + 7) mod 8))
                          \<noteq> bit (0x63 :: byte) x) [0..<8])"

definition SBox :: "byte \<Rightarrow> byte" where
  "SBox b = affine (inverse_gf b)"

definition InvSBox :: "byte \<Rightarrow> byte" where
  "InvSBox b = inverse_gf (word_rotl 1 b XOR word_rotl 3 b XOR word_rotl 6 b XOR 0x05)"

text \<open>Byte \<open>r\<close> of a word in memory (little-endian), and four bytes read back as a word.\<close>

definition byte_of :: "word32 \<Rightarrow> nat \<Rightarrow> byte" where
  "byte_of w r = ucast (drop_bit (8 * r) w)"

definition word_of_bytes :: "byte \<Rightarrow> byte \<Rightarrow> byte \<Rightarrow> byte \<Rightarrow> word32" where
  "word_of_bytes b0 b1 b2 b3 =
     ucast b0 OR push_bit 8 (ucast b1) OR push_bit 16 (ucast b2) OR push_bit 24 (ucast b3)"

definition SubWord :: "word32 \<Rightarrow> word32" where
  "SubWord word =
     word_of_bytes (SBox (byte_of word 0)) (SBox (byte_of word 1))
                   (SBox (byte_of word 2)) (SBox (byte_of word 3))"

text \<open>One iteration of the second loop of \<open>Expansion\<close>.\<close>

definition Expansion_step :: "word32 \<Rightarrow> nat \<Rightarrow> nat \<Rightarrow> word32 list \<Rightarrow> word32 list" where
  "Expansion_step past Nk i w =
     (let temp = w ! (i - 1);
          temp' = (if i mod Nk = 0 then SubWord (RotWord temp) XOR Rcon_at past (i div Nk)
                   else if Nk > 6 \<and> i mod Nk = 4 then SubWord temp
                   else temp)
      in w[i := (w ! (i - Nk)) XOR temp'])"

definition key_words :: "word64 arr4 \<Rightarrow> word32 list" where
  "key_words key =
     concat (map (\<lambda>x. [ucast (at4 key x AND 0xffffffff), ucast (drop_bit 32 (at4 key x))])
                 [0..<4])"

definition Expansion :: "word32 \<Rightarrow> word64 arr4 \<Rightarrow> nat \<Rightarrow> word32 list" where
  "Expansion past key Nk =
     (let words = key_words key;
          Nr = (if Nk = 4 then 10 else if Nk = 6 then 12 else 14);
          w0 = replicate (4 * Nr + 4) 0;
          w1 = fold (\<lambda>i w. w[i := words ! i]) [0..<Nk] w0
      in fold (Expansion_step past Nk) [Nk..<4 * Nr + 3] w1)"

section \<open>aes::state_array\<close>

text \<open>
  \<open>state_array(in, x)\<close>: sixteen bytes from position \<open>x\<close>, byte \<open>i\<close> into
  \<open>array[i / 4][i % 4]\<close>, zero once the string is exhausted; \<open>x\<close> advances by the
  number of bytes taken.
\<close>

definition state_array_at :: "str \<Rightarrow> nat \<Rightarrow> state_array" where
  "state_array_at inp x =
     build (\<lambda>a b. if x + (4 * a + b) < length inp then inp ! (x + (4 * a + b)) else 0)"

definition advance :: "str \<Rightarrow> nat \<Rightarrow> nat" where
  "advance inp x = min (length inp) (x + 16)"

text \<open>\<open>state_array(in)\<close>: the first sixteen bytes, or fewer and zeros.\<close>

definition state_array_of :: "str \<Rightarrow> state_array" where
  "state_array_of inp = build (\<lambda>a b. if 4 * a + b < length inp then inp ! (4 * a + b) else 0)"

definition zero_array :: state_array where
  "zero_array = build (\<lambda>row col. 0)"

definition xor_arr :: "state_array \<Rightarrow> state_array \<Rightarrow> state_array" where
  "xor_arr s arr = build (\<lambda>col row. cell s col row XOR cell arr col row)"

text \<open>
  \<open>shift_r\<close>: one pass per bit; a pass walks \<open>array[col][row]\<close> with \<open>row\<close> outer
  and \<open>col\<close> inner and hands the bit shifted out of a byte to the next one.
\<close>

definition walk :: "(nat \<times> nat) list" where
  "walk = concat (map (\<lambda>row. map (\<lambda>col. (col, row)) [0..<4]) [0..<4])"

definition shift_cell :: "nat \<times> nat \<Rightarrow> byte \<times> state_array \<Rightarrow> byte \<times> state_array" where
  "shift_cell p cs =
     (case p of (col, row) \<Rightarrow> case cs of (carry, s) \<Rightarrow>
        let v = drop_bit 1 (cell s col row) OR carry;
            carry' = (if cell s col row AND 1 \<noteq> 0 then 0x80 else 0)
        in (carry', put s col row v))"

fun shift_r :: "nat \<Rightarrow> state_array \<Rightarrow> state_array" where
  "shift_r 0 s = s"
| "shift_r (Suc bits) s = shift_r bits (snd (fold shift_cell walk (0, s)))"

definition unravel_array :: "state_array \<Rightarrow> str" where
  "unravel_array s = concat (map (\<lambda>row. map (\<lambda>col. cell s row col) [0..<4]) [0..<4])"

definition AddRoundKey_array :: "nat \<Rightarrow> word32 list \<Rightarrow> state_array \<Rightarrow> state_array" where
  "AddRoundKey_array round keys s =
     build (\<lambda>row col. cell s row col XOR byte_of (keys ! (4 * round + col)) row)"

definition SubBytes_array :: "state_array \<Rightarrow> state_array" where
  "SubBytes_array s = build (\<lambda>col row. SBox (cell s col row))"

definition InvSubBytes_array :: "state_array \<Rightarrow> state_array" where
  "InvSubBytes_array s = build (\<lambda>col row. InvSBox (cell s col row))"

definition ShiftRows_array :: "state_array \<Rightarrow> state_array" where
  "ShiftRows_array s = build (\<lambda>col row. cell s ((col + row) mod 4) row)"

text \<open>\<open>(col - row) % 4\<close> on \<open>size_t\<close>: the difference wraps modulo \<open>2^64\<close>.\<close>

definition InvShiftRows_array :: "state_array \<Rightarrow> state_array" where
  "InvShiftRows_array s =
     build (\<lambda>col row. cell s (((col + 2 ^ 64 - row) mod 2 ^ 64) mod 4) row)"

definition MixColumns_array :: "state_array \<Rightarrow> state_array" where
  "MixColumns_array s =
     build (\<lambda>col row.
       at4 (Arr4
         (mult 0x2 (cell s col 0) XOR mult 0x3 (cell s col 1) XOR cell s col 2 XOR cell s col 3)
         (cell s col 0 XOR mult 0x2 (cell s col 1) XOR mult 0x3 (cell s col 2) XOR cell s col 3)
         (cell s col 0 XOR cell s col 1 XOR mult 0x2 (cell s col 2) XOR mult 0x3 (cell s col 3))
         (mult 0x3 (cell s col 0) XOR cell s col 1 XOR cell s col 2 XOR mult 0x2 (cell s col 3)))
         row)"

definition InvMixColumns_array :: "state_array \<Rightarrow> state_array" where
  "InvMixColumns_array s =
     build (\<lambda>col row.
       at4 (Arr4
         (mult 0xe (cell s col 0) XOR mult 0xb (cell s col 1) XOR mult 0xd (cell s col 2)
            XOR mult 0x9 (cell s col 3))
         (mult 0x9 (cell s col 0) XOR mult 0xe (cell s col 1) XOR mult 0xb (cell s col 2)
            XOR mult 0xd (cell s col 3))
         (mult 0xd (cell s col 0) XOR mult 0x9 (cell s col 1) XOR mult 0xe (cell s col 2)
            XOR mult 0xb (cell s col 3))
         (mult 0xb (cell s col 0) XOR mult 0xd (cell s col 1) XOR mult 0x9 (cell s col 2)
            XOR mult 0xe (cell s col 3)))
         row)"

section \<open>aes::state\<close>

record state =
  arrays :: "state_array list"
  expanded :: "word32 list"
  key :: "word64 arr4"
  rounds :: nat

definition Schedule :: "word32 \<Rightarrow> word64 arr4 \<Rightarrow> nat \<Rightarrow> error + word32 list" where
  "Schedule past k Nr =
     (if Nr = 10 then Inr (Expansion past k 4)
      else if Nr = 12 then Inr (Expansion past k 6)
      else if Nr = 14 then Inr (Expansion past k 8)
      else Inl (InvalidKeySize Nr))"

text \<open>The loop \<open>while (x < in.length()) arrays.emplace_back(state_array(in, x))\<close>.\<close>

function split_arrays :: "str \<Rightarrow> nat \<Rightarrow> state_array list" where
  "split_arrays inp x =
     (if x < length inp then state_array_at inp x # split_arrays inp (advance inp x) else [])"
  by pat_completeness auto
termination
  by (relation "measure (\<lambda>(inp, x). length inp - x)") (auto simp: advance_def)

declare split_arrays.simps [simp del]

definition state_of_string :: "word32 \<Rightarrow> str \<Rightarrow> word64 arr4 \<Rightarrow> nat \<Rightarrow> error + state" where
  "state_of_string past inp k Nr =
     (case Schedule past k Nr of
        Inl e \<Rightarrow> Inl e
      | Inr w \<Rightarrow> Inr \<lparr>arrays = split_arrays inp 0, expanded = w, key = k, rounds = Nr\<rparr>)"

definition state_of_arrays ::
  "word32 \<Rightarrow> state_array list \<Rightarrow> word64 arr4 \<Rightarrow> nat \<Rightarrow> error + state" where
  "state_of_arrays past arrs k Nr =
     (case Schedule past k Nr of
        Inl e \<Rightarrow> Inl e
      | Inr w \<Rightarrow> Inr \<lparr>arrays = arrs, expanded = w, key = k, rounds = Nr\<rparr>)"

definition unravel :: "state \<Rightarrow> str" where
  "unravel s = concat (map unravel_array (arrays s))"

definition on_arrays :: "(state_array \<Rightarrow> state_array) \<Rightarrow> state \<Rightarrow> state" where
  "on_arrays f s = s\<lparr>arrays := map f (arrays s)\<rparr>"

definition AddRoundKey :: "nat \<Rightarrow> state \<Rightarrow> state" where
  "AddRoundKey round s = on_arrays (AddRoundKey_array round (expanded s)) s"

definition SubBytes :: "state \<Rightarrow> state" where "SubBytes = on_arrays SubBytes_array"
definition InvSubBytes :: "state \<Rightarrow> state" where "InvSubBytes = on_arrays InvSubBytes_array"
definition ShiftRows :: "state \<Rightarrow> state" where "ShiftRows = on_arrays ShiftRows_array"
definition InvShiftRows :: "state \<Rightarrow> state" where "InvShiftRows = on_arrays InvShiftRows_array"
definition MixColumns :: "state \<Rightarrow> state" where "MixColumns = on_arrays MixColumns_array"
definition InvMixColumns :: "state \<Rightarrow> state" where "InvMixColumns = on_arrays InvMixColumns_array"

section \<open>aes::Cipher, aes::InvCipher, aes::Ctr\<close>

definition Cipher_rounds :: "nat \<Rightarrow> state \<Rightarrow> state" where
  "Cipher_rounds Nr s =
     (let s1 = AddRoundKey 0 s;
          s2 = fold (\<lambda>x s. AddRoundKey (x + 1) (MixColumns (ShiftRows (SubBytes s))))
                    [0..<Nr - 1] s1
      in AddRoundKey (Nr - 1) (ShiftRows (SubBytes s2)))"

definition Cipher :: "word32 \<Rightarrow> str \<Rightarrow> word64 arr4 \<Rightarrow> nat \<Rightarrow> error + str" where
  "Cipher past inp k Nr =
     (case state_of_string past inp k Nr of
        Inl e \<Rightarrow> Inl e
      | Inr s \<Rightarrow> Inr (unravel (Cipher_rounds Nr s)))"

text \<open>The loop \<open>for (size_t x = Nr - 1; x >= 1; --x)\<close> runs \<open>x = Nr - 1, ..., 1\<close>.\<close>

definition InvCipher_rounds :: "nat \<Rightarrow> state \<Rightarrow> state" where
  "InvCipher_rounds Nr s =
     (let s1 = AddRoundKey (Nr - 1) s;
          s2 = fold (\<lambda>x s. InvMixColumns (AddRoundKey x (InvSubBytes (InvShiftRows s))))
                    (rev [1..<Nr]) s1
      in AddRoundKey 0 (InvSubBytes (InvShiftRows s2)))"

definition InvCipher :: "word32 \<Rightarrow> str \<Rightarrow> word64 arr4 \<Rightarrow> nat \<Rightarrow> error + str" where
  "InvCipher past inp k Nr =
     (case state_of_string past inp k Nr of
        Inl e \<Rightarrow> Inl e
      | Inr s \<Rightarrow> Inr (unravel (InvCipher_rounds Nr s)))"

text \<open>
  \<open>std::string(reinterpret_cast<char*>(&nonce), sizeof(uint64_t))\<close>: the eight bytes of
  the nonce in memory order (little-endian, as the specification fixes it).
\<close>

definition nonce_string :: "word64 \<Rightarrow> str" where
  "nonce_string nonce = map (\<lambda>i. ucast (drop_bit (8 * i) nonce)) [0..<8]"

fun Ctr_loop ::
  "word32 \<Rightarrow> word64 arr4 \<Rightarrow> nat \<Rightarrow> state_array list \<Rightarrow> word64 \<Rightarrow> error + state_array list" where
  "Ctr_loop past k Nr [] nonce = Inr []"
| "Ctr_loop past k Nr (array # rest) nonce =
     (case Cipher past (nonce_string nonce) k Nr of
        Inl e \<Rightarrow> Inl e
      | Inr c \<Rightarrow>
         (case Ctr_loop past k Nr rest (nonce + 1) of
            Inl e \<Rightarrow> Inl e
          | Inr rest' \<Rightarrow> Inr (xor_arr array (state_array_of c) # rest')))"

definition Ctr :: "word32 \<Rightarrow> str \<Rightarrow> word64 arr4 \<Rightarrow> nat \<Rightarrow> word64 \<Rightarrow> error + str" where
  "Ctr past inp k Nr nonce =
     (case state_of_string past inp k Nr of
        Inl e \<Rightarrow> Inl e
      | Inr s \<Rightarrow>
         (case Ctr_loop past k Nr (arrays s) nonce of
            Inl e \<Rightarrow> Inl e
          | Inr as \<Rightarrow> Inr (unravel (s\<lparr>arrays := as\<rparr>))))"

section \<open>aes::gcm\<close>

definition increment :: "state_array \<Rightarrow> state_array" where
  "increment X =
     (let lsb = (push_bit 24 (ucast (cell X 3 0)) OR push_bit 16 (ucast (cell X 3 1))
                 OR push_bit 8 (ucast (cell X 3 2)) OR ucast (cell X 3 3) :: word32);
          lsb' = lsb + 1
      in build (\<lambda>i x. if i = 3 then ucast (drop_bit (8 * (3 - x)) lsb' AND 0xFF)
                        else cell X i x))"

definition R_block :: state_array where
  "R_block = put zero_array 0 0 0xE1"

text \<open>
  The body of the innermost loop of \<open>gcm::mult\<close>.  The statement \<open>byte << 1\<close> stores
  nothing, so every one of the eight passes tests the top bit of the same \<open>byte\<close>;
  \<open>V.get()[3][3] & 1 == 1\<close> parses as \<open>V[3][3] & (1 == 1)\<close>.
\<close>

definition mult_bit :: "byte \<Rightarrow> state_array \<times> state_array \<Rightarrow> state_array \<times> state_array" where
  "mult_bit b ZV =
     (case ZV of (Z, V) \<Rightarrow>
        let Z' = (if b AND 0x80 \<noteq> 0 then xor_arr Z V else Z);
            V1 = shift_r 1 V;
            V2 = (if cell V1 3 3 AND 1 \<noteq> 0 then xor_arr V1 R_block else V1)
        in (Z', V2))"

definition gcm_mult :: "state_array \<Rightarrow> state_array \<Rightarrow> state_array" where
  "gcm_mult X Y =
     fst (fold (\<lambda>p ZV. case p of (col, row) \<Rightarrow> (mult_bit (cell X col row) ^^ 8) ZV)
               walk (zero_array, Y))"

definition GHASH :: "state \<Rightarrow> state_array \<Rightarrow> state_array" where
  "GHASH X H = fold (\<lambda>array Y. gcm_mult (xor_arr Y array) H) (arrays X) zero_array"

fun GCTR_loop ::
  "word32 \<Rightarrow> word64 arr4 \<Rightarrow> nat \<Rightarrow> state_array list \<Rightarrow> state_array \<Rightarrow> error + state_array list"
where
  "GCTR_loop past k Nr [] ICB = Inr []"
| "GCTR_loop past k Nr (array # rest) ICB =
     and_then (Cipher past (unravel_array ICB) k Nr) (\<lambda>c.
     and_then (GCTR_loop past k Nr rest (increment ICB)) (\<lambda>rest'.
     Inr (xor_arr array (state_array_of c) # rest')))"

definition GCTR :: "word32 \<Rightarrow> state \<Rightarrow> state_array \<Rightarrow> error + state" where
  "GCTR past s ICB =
     and_then (GCTR_loop past (key s) (rounds s) (arrays s) ICB) (\<lambda>as.
     Inr (s\<lparr>arrays := as\<rparr>))"

text \<open>
  A string literal handed to a \<open>const std::string&\<close> parameter goes through
  \<open>std::string(const char*)\<close>, which stops at the first NUL byte.
\<close>

definition string_of_literal :: "str \<Rightarrow> str" where
  "string_of_literal lit = takeWhile (\<lambda>c. c \<noteq> 0) lit"

text \<open>
  The first statement of \<open>Enc\<close> and of \<open>Dec\<close>:
  \<open>state_array H = Cipher("\0\0\0\0\0\0\0\0\0\0\0\0\0\0\0\0", k, Nr)\<close>.
\<close>

definition hash_subkey :: "word32 \<Rightarrow> word64 arr4 \<Rightarrow> nat \<Rightarrow> error + state_array" where
  "hash_subkey past k Nr =
     and_then (Cipher past (string_of_literal (replicate 16 0)) k Nr) (\<lambda>c.
     Inr (state_array_of c))"

definition Enc :: "word32 \<Rightarrow> str \<Rightarrow> word64 arr4 \<Rightarrow> nat \<Rightarrow> word64 \<Rightarrow> error + str" where
  "Enc past inp k Nr nonce =
     and_then (hash_subkey past k Nr) (\<lambda>H.
     and_then (state_of_string past (nonce_string nonce) k Nr) (\<lambda>ns.
     let J = GHASH ns H; Jc = increment J in
     and_then (state_of_string past inp k Nr) (\<lambda>s0.
     and_then (GCTR past s0 Jc) (\<lambda>cipher_state.
     and_then (state_of_arrays past [GHASH cipher_state H] k Nr) (\<lambda>hs.
     and_then (GCTR past hs J) (\<lambda>hs'.
     Inr (unravel (cipher_state\<lparr>arrays := arrays cipher_state @ [hd (arrays hs')]\<rparr>))))))))"

definition Dec :: "word32 \<Rightarrow> str \<Rightarrow> word64 arr4 \<Rightarrow> nat \<Rightarrow> word64 \<Rightarrow> error + str" where
  "Dec past inp k Nr nonce =
     and_then (hash_subkey past k Nr) (\<lambda>H.
     and_then (state_of_string past (nonce_string nonce) k Nr) (\<lambda>ns.
     let J = GHASH ns H in
     and_then (state_of_string past inp k Nr) (\<lambda>s0.
     if arrays s0 = [] then Inl BackOfEmpty
     else
       let hash = last (arrays s0);
           cipher_state = s0\<lparr>arrays := butlast (arrays s0)\<rparr> in
       and_then (state_of_arrays past [hash] k Nr) (\<lambda>hs.
       and_then (GCTR past hs J) (\<lambda>hs'.
       if unravel_array (hd (arrays hs')) \<noteq> unravel_array (GHASH cipher_state H)
       then Inl AuthenticationFailure
       else and_then (GCTR past cipher_state (increment J)) (\<lambda>out. Inr (unravel out)))))))"

section \<open>prime and exchange\<close>

text \<open>
  \<open>prime::raise\<close> on \<open>uint64_t\<close>: the products wrap modulo \<open>2^64\<close> before the
  reduction.  (\<open>x % 0\<close> is undefined in C++; the modulus is never 0 below.)
\<close>

function raise_loop :: "word64 \<Rightarrow> word64 \<Rightarrow> word64 \<Rightarrow> word64 \<Rightarrow> word64" where
  "raise_loop ret v e md =
     (if e > 0 then raise_loop (if e AND 1 \<noteq> 0 then (ret * v) mod md else ret)
                               ((v * v) mod md) (drop_bit 1 e) md
      else ret)"
  by pat_completeness auto
termination
proof (relation "measure (\<lambda>(ret, v, e, md). unat e)")
  show "wf (measure (\<lambda>(ret, v, e, md). unat e))" by simp
next
  fix ret v e md :: word64
  assume "0 < e"
  then have "unat e \<noteq> 0" by (simp add: unat_eq_0 word_greater_zero_iff)
  then have "unat e div 2 < unat e" by simp
  then show "((if e AND 1 \<noteq> 0 then (ret * v) mod md else ret, (v * v) mod md, drop_bit 1 e, md),
              ret, v, e, md) \<in> measure (\<lambda>(ret, v, e, md). unat e)"
    by (simp add: drop_bit_eq_div unat_div)
qed

declare raise_loop.simps [simp del]

definition raise :: "word64 \<Rightarrow> word64 \<Rightarrow> word64 \<Rightarrow> word64" where
  "raise v e md = raise_loop 1 (v mod md) e md"

text \<open>
  \<open>prime::is\<close>.  \<open>std::sqrt\<close> works on a \<open>double\<close> and the result is truncated;
  it is modelled by the integer square root, which it equals for every number below
  \<open>2^52\<close>.
\<close>

fun isqrt_upto :: "nat \<Rightarrow> nat \<Rightarrow> nat" where
  "isqrt_upto 0 n = 0"
| "isqrt_upto (Suc r) n = (if Suc r * Suc r \<le> n then Suc r else isqrt_upto r n)"

definition isqrt :: "nat \<Rightarrow> nat" where
  "isqrt n = isqrt_upto n n"

definition prime_is :: "nat \<Rightarrow> bool" where
  "prime_is num =
     (if num = 1 then False
      else list_all (\<lambda>x. num mod x \<noteq> 0) [2..<isqrt num + 1 + 1])"

text \<open>
  \<open>prime::next<uint32_t>\<close>: the search wraps modulo \<open>2^32\<close> and is not bounded.
\<close>

partial_function (option) next_loop :: "word32 \<Rightarrow> word32 option" where
  "next_loop num = (if prime_is (unat num) then Some num else next_loop (num + 2))"

definition prime_next :: "word32 \<Rightarrow> word32 option" where
  "prime_next num = next_loop (if num mod 2 = 0 then num + 1 else num)"

text \<open>
  \<open>prime::generate\<close> for one value \<open>seed\<close> of \<open>std::rand()\<close>: the pair, or
  \<open>None\<close> when the function calls itself again with a fresh random number (or when
  the search does not return).
\<close>

definition generate_with :: "word32 \<Rightarrow> (word64 \<times> word64) option" where
  "generate_with seed =
     (case prime_next seed of
        None \<Rightarrow> None
      | Some q \<Rightarrow>
         let p = (ucast q :: word64) * 2 + 1
         in if prime_is (unat p) then Some (p, ucast q) else None)"

text \<open>
  The server path of \<open>exchange::exchange_keys\<close> up to the generator:
  \<open>uint64_t h = 1; while (prime::raise(h++, (p-1)/q, p) <= 1) {}\<close> and then
  \<open>g = prime::raise(h, (p-1)/q, p)\<close>.  \<open>find_h\<close> returns \<open>h\<close> as the loop leaves
  it; the loop need not end.
\<close>

partial_function (option) find_h :: "word64 \<Rightarrow> word64 \<Rightarrow> word64 \<Rightarrow> word64 option" where
  "find_h h e p = (if raise h e p \<le> 1 then find_h (h + 1) e p else Some (h + 1))"

definition server_generator :: "word64 \<Rightarrow> word64 \<Rightarrow> word64 option" where
  "server_generator p q =
     (case find_h 1 ((p - 1) div q) p of
        None \<Rightarrow> None
      | Some h \<Rightarrow> Some (raise h ((p - 1) div q) p))"

section \<open>hmac\<close>

text \<open>
  The key that \<open>hmac::generate\<close> hands to OpenSSL's \<open>HMAC\<close>: for each of the
  \<open>keys\<close> leading words, eight times \<open>key_bytes += char(num & 0xf)\<close> with
  \<open>num >>= 1\<close> in between.
\<close>

definition word_chars :: "word64 \<Rightarrow> str" where
  "word_chars num = map (\<lambda>y. ucast (drop_bit y num AND 0xf)) [0..<8]"

definition key_bytes :: "word64 arr4 \<Rightarrow> nat \<Rightarrow> error + str" where
  "key_bytes k Nr =
     (if Nr = 10 then Inr (concat (map (\<lambda>x. word_chars (at4 k x)) [0..<2]))
      else if Nr = 12 then Inr (concat (map (\<lambda>x. word_chars (at4 k x)) [0..<3]))
      else if Nr = 14 then Inr (concat (map (\<lambda>x. word_chars (at4 k x)) [0..<4]))
      else Inl InvalidRoundCount)"

text \<open>
  \<open>hmac::generate\<close>; \<open>HMAC\<close> is OpenSSL's function (key, then message), \<open>None\<close>
  for its \<open>NULL\<close>.
\<close>

definition generate :: "(str \<Rightarrow> str \<Rightarrow> str option) \<Rightarrow> str \<Rightarrow> word64 arr4 \<Rightarrow> nat \<Rightarrow> error + str" where
  "generate HMAC_SHA256 message k Nr =
     and_then (key_bytes k Nr) (\<lambda>kb.
       case HMAC_SHA256 kb message of None \<Rightarrow> Inl HMACFailed | Some md \<Rightarrow> Inr md)"

text \<open>
  The serialisation the specification describes: the 2/3/4 leading words of the key,
  each as its eight bytes.
\<close>

definition word_bytes :: "word64 \<Rightarrow> str" where
  "word_bytes w = map (\<lambda>i. ucast (drop_bit (8 * i) w)) [0..<8]"

definition active_prefix_bytes :: "word64 arr4 \<Rightarrow> nat \<Rightarrow> str" where
  "active_prefix_bytes k Nr =
     concat (map (\<lambda>x. word_bytes (at4 k x)) [0..<(if Nr = 10 then 2 else if Nr = 12 then 3 else 4)])"

section \<open>network\<close>

datatype meta = ERROR | EMPTY | DATA | HMAC | NONCE | IV | FINAL | MESSAGE | ACK | REFUSED | REEXCHANGE

text \<open>The integer value of an enumerator, which is what an \<open>if\<close> tests.\<close>

fun meta_value :: "meta \<Rightarrow> nat" where
  "meta_value ERROR = 0"
| "meta_value EMPTY = 1"
| "meta_value DATA = 2"
| "meta_value HMAC = 3"
| "meta_value NONCE = 4"
| "meta_value IV = 5"
| "meta_value FINAL = 6"
| "meta_value MESSAGE = 7"
| "meta_value ACK = 8"
| "meta_value REFUSED = 9"
| "meta_value REEXCHANGE = 10"

record packet =
  m :: meta
  data :: str

definition PACKET_SIZE :: nat where
  "PACKET_SIZE = 1024"

definition fresh_packet :: packet where
  "fresh_packet = \<lparr>m = EMPTY, data = replicate PACKET_SIZE 0\<rparr>"

text \<open>
  What \<open>poll\<close> reports to \<open>recv_packet\<close>: failure (-1), timeout (0), or readable, in
  which case \<open>recv\<close> overwrites the packet with the frame on the wire.
\<close>

datatype poll_result = PollFailed | PollTimeout | PollReady packet

definition recv_packet :: "poll_result \<Rightarrow> packet" where
  "recv_packet r =
     (case r of
        PollFailed \<Rightarrow> fresh_packet\<lparr>m := ERROR\<rparr>
      | PollTimeout \<Rightarrow> fresh_packet\<lparr>m := ERROR\<rparr>
      | PollReady frame \<Rightarrow> frame)"

text \<open>
  \<open>recv_value<T>\<close>.  The test is \<open>if (p.m = network::meta::ERROR)\<close>: an assignment,
  whose value is the enumerator just stored.  \<open>parse\<close> is \<open>std::istringstream(str) >> ret\<close>
  for the type \<open>T\<close>.
\<close>

definition recv_value :: "(str \<Rightarrow> 'a) \<Rightarrow> poll_result \<Rightarrow> error + 'a" where
  "recv_value parse r =
     (let p = recv_packet r;
          p' = p\<lparr>m := ERROR\<rparr>
      in if meta_value (m p') \<noteq> 0 then Inl ReadFailed
         else Inr (parse (take PACKET_SIZE (data p'))))"

section \<open>Loading the key\<close>

text \<open>
  \<open>aes.cpp\<close>, with \<open>key = {0, 0, 0, 0}\<close> and the key string padded to \<open>size / 8\<close> bytes:
  \<open>for (x = 0; x < keys; ++x) key[x] = *reinterpret_cast<uint64_t*>(&input[x * 8])\<close>.
  Eight bytes are read in memory order, the first one the least significant.
\<close>

definition word64_of_bytes :: "str \<Rightarrow> word64" where
  "word64_of_bytes bs = foldr (\<lambda>b w. ucast b OR push_bit 8 w) bs 0"

definition key_of_string :: "str \<Rightarrow> nat \<Rightarrow> word64 arr4" where
  "key_of_string input keys =
     mk4 (\<lambda>x. if x < keys then word64_of_bytes (take 8 (drop (x * 8) input)) else 0)"

section \<open>Block-wise form of the cipher\<close>

text \<open>
  What \<open>Cipher\<close> and \<open>InvCipher\<close> do to one block: every \<open>state\<close> operation
  maps the \<open>state_array\<close> operation over the blocks with the same key schedule.
\<close>

definition Cipher_block :: "nat \<Rightarrow> word32 list \<Rightarrow> state_array \<Rightarrow> state_array" where
  "Cipher_block Nr w a =
     AddRoundKey_array (Nr - 1) w (ShiftRows_array (SubBytes_array
       (fold (\<lambda>x a. AddRoundKey_array (x + 1) w (MixColumns_array (ShiftRows_array (SubBytes_array a))))
             [0..<Nr - 1] (AddRoundKey_array 0 w a))))"

definition InvCipher_block :: "nat \<Rightarrow> word32 list \<Rightarrow> state_array \<Rightarrow> state_array" where
  "InvCipher_block Nr w a =
     AddRoundKey_array 0 w (InvSubBytes_array (InvShiftRows_array
       (fold (\<lambda>x a. InvMixColumns_array (AddRoundKey_array x w (InvSubBytes_array (InvShiftRows_array a))))
             (rev [1..<Nr]) (AddRoundKey_array (Nr - 1) w a))))"

section \<open>Auxiliary definitions\<close>

text \<open>
  Names for parts of the code above that the proofs talk about: the doubling step of
  \<open>gf::mult\<close> (\<open>a\<close> after one pass of the loop), a conditional summand, the table
  of multiplicative inverses that \<open>gf::inverse\<close> is shown to compute, the zero-padding
  that building a \<open>state\<close> performs, and the two compositions
  \<open>InvCipher(Cipher(in, k, Nr), k, Nr)\<close> and \<open>Ctr(Ctr(in, k, Nr, nonce), k, Nr, nonce)\<close>.
\<close>

definition xtime :: "byte \<Rightarrow> byte" where
  "xtime a = (if a AND 0x80 \<noteq> 0 then ucast (push_bit 1 (ucast a :: word32) XOR 0x11B) else push_bit 1 a)"

definition sel :: "bool \<Rightarrow> byte \<Rightarrow> byte" where
  "sel c a = (if c then a else 0)"

definition inv_table :: "byte list" where
  "inv_table =
    [0, 1, 141, 246, 203, 82, 123, 209, 232, 79, 41, 192, 176, 225, 229, 199,
     116, 180, 170, 75, 153, 43, 96, 95, 88, 63, 253, 204, 255, 64, 238, 178,
     58, 110, 90, 241, 85, 77, 168, 201, 193, 10, 152, 21, 48, 68, 162, 194,
     44, 69, 146, 108, 243, 57, 102, 66, 242, 53, 32, 111, 119, 187, 89, 25,
     29, 254, 55, 103, 45, 49, 245, 105, 167, 100, 171, 19, 84, 37, 233, 9,
     237, 92, 5, 202, 76, 36, 135, 191, 24, 62, 34, 240, 81, 236, 97, 23,
     22, 94, 175, 211, 73, 166, 54, 67, 244, 71, 145, 223, 51, 147, 33, 59,
     121, 183, 151, 133, 16, 181, 186, 60, 182, 112, 208, 6, 161, 250, 129, 130,
     131, 126, 127, 128, 150, 115, 190, 86, 155, 158, 149, 217, 247, 2, 185, 164,
     222, 106, 50, 109, 216, 138, 132, 114, 42, 20, 159, 136, 249, 220, 137, 154,
     251, 124, 46, 195, 143, 184, 101, 72, 38, 200, 18, 74, 206, 231, 210, 98,
     12, 224, 31, 239, 17, 117, 120, 113, 165, 142, 118, 61, 189, 188, 134, 87,
     11, 40, 47, 163, 218, 212, 228, 15, 169, 39, 83, 4, 27, 252, 172, 230,
     122, 7, 174, 99, 197, 219, 226, 234, 148, 139, 196, 213, 157, 248, 144, 107,
     177, 13, 214, 235, 198, 14, 207, 173, 8, 78, 215, 227, 93, 80, 30, 179,
     91, 35, 56, 52, 104, 70, 3, 140, 221, 156, 125, 160, 205, 26, 65, 28]"

definition zero_pad :: "str \<Rightarrow> str" where
  "zero_pad inp = inp @ replicate ((16 - length inp mod 16) mod 16) 0"

definition InvCipher_Cipher :: "word32 \<Rightarrow> str \<Rightarrow> word64 arr4 \<Rightarrow> nat \<Rightarrow> error + str" where
  "InvCipher_Cipher past inp k Nr =
     and_then (Cipher past inp k Nr) (\<lambda>c. InvCipher past c k Nr)"

definition Ctr_Ctr :: "word32 \<Rightarrow> str \<Rightarrow> word64 arr4 \<Rightarrow> nat \<Rightarrow> word64 \<Rightarrow> error + str" where
  "Ctr_Ctr past inp k Nr nonce =
     and_then (Ctr past inp k Nr nonce) (\<lambda>c. Ctr past c k Nr nonce)"

text \<open>
  The word that one pass of the second loop of \<open>Expansion\<close> XORs onto
  \<open>w[i - Nk]\<close>, and the S-box as a table.
\<close>

definition Expansion_temp :: "word32 \<Rightarrow> nat \<Rightarrow> nat \<Rightarrow> word32 \<Rightarrow> word32" where
  "Expansion_temp past Nk i t =
     (if i mod Nk = 0 then SubWord (RotWord t) XOR Rcon_at past (i div Nk)
      else if Nk > 6 \<and> i mod Nk = 4 then SubWord t
      else t)"

definition sbox_table :: "byte list" where
  "sbox_table =
    [99, 124, 119, 123, 242, 107, 111, 197, 48, 1, 103, 43, 254, 215, 171, 118,
     202, 130, 201, 125, 250, 89, 71, 240, 173, 212, 162, 175, 156, 164, 114, 192,
     183, 253, 147, 38, 54, 63, 247, 204, 52, 165, 229, 241, 113, 216, 49, 21,
     4, 199, 35, 195, 24, 150, 5, 154, 7, 18, 128, 226, 235, 39, 178, 117,
     9, 131, 44, 26, 27, 110, 90, 160, 82, 59, 214, 179, 41, 227, 47, 132,
     83, 209, 0, 237, 32, 252, 177, 91, 106, 203, 190, 57, 74, 76, 88, 207,
     208, 239, 170, 251, 67, 77, 51, 133, 69, 249, 2, 127, 80, 60, 159, 168,
     81, 163, 64, 143, 146, 157, 56, 245, 188, 182, 218, 33, 16, 255, 243, 210,
     205, 12, 19, 236, 95, 151, 68, 23, 196, 167, 126, 61, 100, 93, 25, 115,
     96, 129, 79, 220, 34, 42, 144, 136, 70, 238, 184, 20, 222, 94, 11, 219,
     224, 50, 58, 10, 73, 6, 36, 92, 194, 211, 172, 98, 145, 149, 228, 121,
     231, 200, 55, 109, 141, 213, 78, 169, 108, 86, 244, 234, 101, 122, 174, 8,
     186, 120, 37, 46, 28, 166, 180, 198, 232, 221, 116, 31, 75, 189, 139, 138,
     112, 62, 181, 102, 72, 3, 246, 14, 97, 53, 87, 185, 134, 193, 29, 158,
     225, 248, 152, 17, 105, 217, 142, 148, 155, 30, 135, 233, 206, 85, 40, 223,
     140, 161, 137, 13, 191, 230, 66, 104, 65, 153, 45, 15, 176, 84, 187, 22]"

section \<open>Matrices and blocks\<close>

lemma at4_mk4: "i < 4 \<Longrightarrow> at4 (mk4 f) i = f i"
proof -
  assume "i < 4"
  then have "i = 0 \<or> i = 1 \<or> i = 2 \<or> i = 3" by arith
  then show ?thesis by (auto simp: mk4_def)
qed

lemma mk4_at4: "mk4 (at4 r) = r"
  by (cases r) (simp add: mk4_def)

lemma cell_build: "i < 4 \<Longrightarrow> j < 4 \<Longrightarrow> cell (build f) i j = f i j"
  by (simp add: cell_def build_def at4_mk4)

lemma build_cell: "build (cell s) = s"
proof -
  have "mk4 (\<lambda>i. mk4 (at4 (at4 s i))) = mk4 (at4 s)" by (simp add: mk4_at4)
  then show ?thesis by (simp add: build_def cell_def mk4_at4)
qed

lemma build_cong: "(\<And>i j. i < 4 \<Longrightarrow> j < 4 \<Longrightarrow> f i j = g i j) \<Longrightarrow> build f = build g"
  by (simp add: build_def mk4_def)

lemma state_array_eqI:
  assumes "\<And>i j. i < 4 \<Longrightarrow> j < 4 \<Longrightarrow> cell s i j = cell t i j"
  shows "s = t"
proof -
  have "build (cell s) = build (cell t)" using assms by (rule build_cong)
  then show ?thesis by (simp add: build_cell)
qed

lemma on_arrays_fields [simp]:
  "arrays (on_arrays f s) = map f (arrays s)"
  "expanded (on_arrays f s) = expanded s"
  "key (on_arrays f s) = key s"
  "rounds (on_arrays f s) = rounds s"
  by (simp_all add: on_arrays_def)

lemma on_arrays_comp: "on_arrays f (on_arrays g s) = on_arrays (f \<circ> g) s"
  by (simp add: on_arrays_def)

lemma Cipher_fold:
  "fold (\<lambda>x s. AddRoundKey (x + 1) (MixColumns (ShiftRows (SubBytes s)))) xs s
     = on_arrays (fold (\<lambda>x a. AddRoundKey_array (x + 1) (expanded s)
                         (MixColumns_array (ShiftRows_array (SubBytes_array a)))) xs) s"
  by (induction xs arbitrary: s)
     (simp_all add: AddRoundKey_def MixColumns_def ShiftRows_def SubBytes_def on_arrays_def)

lemma InvCipher_fold:
  "fold (\<lambda>x s. InvMixColumns (AddRoundKey x (InvSubBytes (InvShiftRows s)))) xs s
     = on_arrays (fold (\<lambda>x a. InvMixColumns_array (AddRoundKey_array x (expanded s)
                         (InvSubBytes_array (InvShiftRows_array a)))) xs) s"
  by (induction xs arbitrary: s)
     (simp_all add: AddRoundKey_def InvMixColumns_def InvShiftRows_def InvSubBytes_def on_arrays_def)

lemma Cipher_rounds_blocks: "Cipher_rounds Nr s = on_arrays (Cipher_block Nr (expanded s)) s"
  unfolding Cipher_rounds_def Let_def Cipher_fold
  by (simp add: AddRoundKey_def ShiftRows_def SubBytes_def on_arrays_def Cipher_block_def)

lemma InvCipher_rounds_blocks: "InvCipher_rounds Nr s = on_arrays (InvCipher_block Nr (expanded s)) s"
  unfolding InvCipher_rounds_def Let_def InvCipher_fold
  by (simp add: AddRoundKey_def InvShiftRows_def InvSubBytes_def on_arrays_def InvCipher_block_def)

lemma split_nil: "split_arrays [] 0 = []"
  by (subst split_arrays.simps) simp

lemma Schedule_valid:
  "Nr = 10 \<or> Nr = 12 \<or> Nr = 14 \<Longrightarrow> \<exists>w. Schedule past k Nr = Inr w"
  by (auto simp: Schedule_def)

lemma Cipher_valid:
  assumes "Schedule past k Nr = Inr w"
  shows "Cipher past inp k Nr = Inr (concat (map (unravel_array \<circ> Cipher_block Nr w) (split_arrays inp 0)))"
  using assms by (simp add: Cipher_def state_of_string_def Cipher_rounds_blocks unravel_def)

lemma InvCipher_valid:
  assumes "Schedule past k Nr = Inr w"
  shows "InvCipher past inp k Nr = Inr (concat (map (unravel_array \<circ> InvCipher_block Nr w) (split_arrays inp 0)))"
  using assms by (simp add: InvCipher_def state_of_string_def InvCipher_rounds_blocks unravel_def)


lemma upt_lists:
  "[0..<2] = [0, 1]" "[0..<3] = [0, 1, 2]" "[0..<4] = [0, 1, 2, 3]"
  "[0..<8] = [0, 1, 2, 3, 4, 5, 6, 7]"
  by code_simp+

lemma upt_16: "[0..<16] = [0, 1, 2, 3, 4, 5, 6, 7, 8, 9, 10, 11, 12, 13, 14, 15]"
  by code_simp

lemma list_allD: "list_all P xs \<Longrightarrow> x \<in> set xs \<Longrightarrow> P x"
  by (simp add: list_all_iff)

lemma below_cases: "n < k \<Longrightarrow> list_all P [0..<k] \<Longrightarrow> P n"
  by (simp add: list_all_iff)

section \<open>The field \<open>GF(2\<^sup>8)\<close>\<close>

lemma top_bit: "(a AND 0x80 \<noteq> 0) = bit a 7" for a :: byte
proof -
  have "(0x80 :: byte) = 2 ^ 7" by simp
  then show ?thesis by (simp only: and_exp_eq_0_iff_not_bit) simp
qed

lemma low_bit: "(b AND 1 \<noteq> 0) = bit b 0" for b :: byte
  by (simp add: and_one_eq bit_0 mod2_eq_if)

lemma reduce_cast: "(ucast (push_bit 1 (ucast a :: word32) XOR 0x11B) :: byte) = push_bit 1 a XOR 0x1B" for a :: byte
proof -
  have 1: "(ucast (0x11B :: word32) :: byte) = 0x1B" by simp
  have 2: "(ucast (push_bit 1 (ucast a :: word32)) :: byte) = push_bit 1 a"
    by (rule bit_word_eqI) (auto simp add: bit_simps simp del: push_bit_Suc push_bit_of_Suc_0)
  have "(ucast (push_bit 1 (ucast a :: word32) XOR 0x11B) :: byte)
        = ucast (push_bit 1 (ucast a :: word32)) XOR ucast (0x11B :: word32)"
    by (rule bit_word_eqI) (simp add: bit_simps del: push_bit_Suc push_bit_of_Suc_0)
  then show ?thesis by (simp only: 1 2)
qed

lemma xtime_alt: "xtime a = push_bit 1 a XOR sel (bit a 7) 0x1B"
  unfolding xtime_def top_bit reduce_cast sel_def by simp

lemma xtime_xor: "xtime (a XOR b) = xtime a XOR xtime b"
  by (cases "bit a 7"; cases "bit b 7")
     (simp_all add: xtime_alt sel_def bit_xor_iff push_bit_xor ac_simps)

lemma xtime_0: "xtime 0 = 0"
  by (simp add: xtime_alt sel_def)

lemma sel_simps [simp]: "sel True a = a" "sel False a = 0" "sel c 0 = 0"
  by (simp_all add: sel_def)

lemma sel_xor: "sel c (a XOR b) = sel c a XOR sel c b"
  by (simp add: sel_def)

lemma sel_neq: "sel (p \<noteq> q) a = sel p a XOR sel q a"
  by (cases p; cases q) simp_all

lemma sel_eq_not: "sel (p = (\<not> q)) a = sel p a XOR sel q a"
  by (cases p; cases q) simp_all

lemma bit_sel: "bit (sel c a) n = (c \<and> bit a n)"
  by (simp add: sel_def)

lemma xtime_sel: "xtime (sel c a) = sel c (xtime a)"
  by (cases c) (simp_all add: xtime_0)

lemma mult_loop_step:
  "mult_loop res a b = mult_loop (res XOR sel (bit b 0) a) (xtime a) (drop_bit 1 b)"
proof (cases "b = 0")
  case True
  then show ?thesis by (simp add: mult_loop.simps [of _ _ 0])
next
  case False
  then show ?thesis
    by (subst mult_loop.simps) (simp add: low_bit xtime_def sel_def)
qed

lemma drop_bit_8_byte: "drop_bit 8 b = 0" for b :: byte
  by (rule bit_word_eqI) (simp add: bit_simps)

lemma mult_closed:
  "mult a b =
     sel (bit b 0) a XOR sel (bit b 1) (xtime a) XOR sel (bit b 2) (xtime (xtime a))
     XOR sel (bit b 3) (xtime (xtime (xtime a)))
     XOR sel (bit b 4) (xtime (xtime (xtime (xtime a))))
     XOR sel (bit b 5) (xtime (xtime (xtime (xtime (xtime a)))))
     XOR sel (bit b 6) (xtime (xtime (xtime (xtime (xtime (xtime a))))))
     XOR sel (bit b 7) (xtime (xtime (xtime (xtime (xtime (xtime (xtime a)))))))"
  unfolding mult_def
  apply (subst mult_loop_step)
  apply (subst mult_loop_step)
  apply (subst mult_loop_step)
  apply (subst mult_loop_step)
  apply (subst mult_loop_step)
  apply (subst mult_loop_step)
  apply (subst mult_loop_step)
  apply (subst mult_loop_step)
  apply (simp add: drop_bit_8_byte mult_loop.simps [of _ _ 0] bit_drop_bit_eq eval_nat_numeral ac_simps)
  done

lemma mult_xor_right: "mult a (b XOR c) = mult a b XOR mult a c"
  by (simp add: mult_closed bit_xor_iff sel_neq sel_eq_not ac_simps)

lemma mult_xor_left: "mult (a XOR c) b = mult a b XOR mult c b"
  by (simp add: mult_closed xtime_xor sel_xor ac_simps)

lemma mult_xtime_left: "mult (xtime a) b = xtime (mult a b)"
  by (simp add: mult_closed xtime_xor xtime_sel)

lemma mult_0_left: "mult 0 b = 0"
  by (simp add: mult_closed xtime_0)

lemma mult_0_right: "mult a 0 = 0"
  by (simp add: mult_closed)

lemma byte_decomp:
  "a = sel (bit a 0) 1 XOR sel (bit a 1) 2 XOR sel (bit a 2) 4 XOR sel (bit a 3) 8
       XOR sel (bit a 4) 16 XOR sel (bit a 5) 32 XOR sel (bit a 6) 64 XOR sel (bit a 7) 128"
proof (rule bit_word_eqI)
  let ?d = "sel (bit a 0) 1 XOR sel (bit a 1) 2 XOR sel (bit a 2) 4 XOR sel (bit a 3) 8
       XOR sel (bit a 4) 16 XOR sel (bit a 5) 32 XOR sel (bit a 6) 64 XOR sel (bit a 7) 128"
  fix n assume "n < LENGTH(8)"
  then have n: "n < 8" by simp
  have "list_all (\<lambda>n. bit a n = bit ?d n) [0..<8]"
    by (simp add: upt_lists bit_xor_iff bit_sel)
  with n show "bit a n = bit ?d n" by (rule below_cases)
qed

lemma linear_basis:
  fixes f g :: "byte \<Rightarrow> byte"
  assumes f: "\<And>x y. f (x XOR y) = f x XOR f y"
      and g: "\<And>x y. g (x XOR y) = g x XOR g y"
      and b: "f 1 = g 1" "f 2 = g 2" "f 4 = g 4" "f 8 = g 8"
             "f 16 = g 16" "f 32 = g 32" "f 64 = g 64" "f 128 = g 128"
  shows "f a = g a"
proof -
  have f0: "f 0 = 0" using f [of 0 0] by simp
  have g0: "g 0 = 0" using g [of 0 0] by simp
  have fs: "f (sel c x) = sel c (f x)" for c x by (cases c) (simp_all add: f0)
  have gs: "g (sel c x) = sel c (g x)" for c x by (cases c) (simp_all add: g0)
  let ?d = "sel (bit a 0) 1 XOR sel (bit a 1) 2 XOR sel (bit a 2) 4 XOR sel (bit a 3) 8
       XOR sel (bit a 4) 16 XOR sel (bit a 5) 32 XOR sel (bit a 6) 64 XOR sel (bit a 7) 128"
  have "f ?d = g ?d" by (simp only: f g fs gs b)
  then show ?thesis using byte_decomp [of a] by simp
qed

lemma xtime_numerals:
  "xtime 1 = 2" "xtime 2 = 4" "xtime 4 = 8" "xtime 8 = 16" "xtime 16 = 32" "xtime 32 = 64"
  "xtime 64 = 128" "xtime 128 = 27"
  by (simp_all add: xtime_alt)

lemma mult_pow2:
  "mult a 1 = a" "mult a 2 = xtime a" "mult a 4 = xtime (xtime a)"
  "mult a 8 = xtime (xtime (xtime a))" "mult a 16 = xtime (xtime (xtime (xtime a)))"
  "mult a 32 = xtime (xtime (xtime (xtime (xtime a))))"
  "mult a 64 = xtime (xtime (xtime (xtime (xtime (xtime a)))))"
  "mult a 128 = xtime (xtime (xtime (xtime (xtime (xtime (xtime a))))))"
  by (simp_all add: mult_closed)

lemma mult_27: "mult a 27 = a XOR xtime a XOR xtime (xtime (xtime a)) XOR xtime (xtime (xtime (xtime a)))"
  by (simp add: mult_closed)

lemma xtime_8:
  "xtime (xtime (xtime (xtime (xtime (xtime (xtime (xtime a)))))))
     = a XOR xtime a XOR xtime (xtime (xtime a)) XOR xtime (xtime (xtime (xtime a)))"
  by (rule linear_basis [where a = a]) (simp_all add: xtime_xor ac_simps, simp_all add: xtime_alt)

lemma mult_xtime_right: "mult a (xtime b) = xtime (mult a b)"
  by (rule linear_basis [where a = b])
     (simp_all add: xtime_xor mult_xor_right xtime_numerals mult_pow2 mult_27 xtime_8)

lemma mult_1_left: "mult 1 a = a"
proof -
  have "mult 1 a = sel (bit a 0) 1 XOR sel (bit a 1) 2 XOR sel (bit a 2) 4 XOR sel (bit a 3) 8
       XOR sel (bit a 4) 16 XOR sel (bit a 5) 32 XOR sel (bit a 6) 64 XOR sel (bit a 7) 128"
    by (simp add: mult_closed xtime_numerals ac_simps)
  then show ?thesis using byte_decomp [of a] by simp
qed

lemma mult_commute: "mult a b = mult b a"
proof (rule linear_basis [where a = b])
  have p: "(2::byte) = xtime 1" "(4::byte) = xtime (xtime 1)" "(8::byte) = xtime (xtime (xtime 1))"
    "(16::byte) = xtime (xtime (xtime (xtime 1)))" "(32::byte) = xtime (xtime (xtime (xtime (xtime 1))))"
    "(64::byte) = xtime (xtime (xtime (xtime (xtime (xtime 1)))))"
    "(128::byte) = xtime (xtime (xtime (xtime (xtime (xtime (xtime 1))))))"
    by (simp_all add: xtime_numerals)
  show "mult a 1 = mult 1 a" by (simp add: mult_pow2 mult_1_left)
  show "mult a 2 = mult 2 a" by (subst (2) p) (simp add: mult_pow2 mult_xtime_left mult_1_left)
  show "mult a 4 = mult 4 a" by (subst (2) p) (simp add: mult_pow2 mult_xtime_left mult_1_left)
  show "mult a 8 = mult 8 a" by (subst (2) p) (simp add: mult_pow2 mult_xtime_left mult_1_left)
  show "mult a 16 = mult 16 a" by (subst (2) p) (simp add: mult_pow2 mult_xtime_left mult_1_left)
  show "mult a 32 = mult 32 a" by (subst (2) p) (simp add: mult_pow2 mult_xtime_left mult_1_left)
  show "mult a 64 = mult 64 a" by (subst (2) p) (simp add: mult_pow2 mult_xtime_left mult_1_left)
  show "mult a 128 = mult 128 a" by (subst (2) p) (simp add: mult_pow2 mult_xtime_left mult_1_left)
qed (simp_all add: mult_xor_right mult_xor_left)

lemma mult_assoc: "mult (mult a b) c = mult a (mult b c)"
  by (rule linear_basis [where a = c])
     (simp_all add: mult_xor_right mult_pow2 mult_xtime_right)

lemma inverse_unique:
  assumes "mult a x = 1" "mult a y = 1"
  shows "x = y"
proof -
  have "x = mult x (mult a y)" by (simp add: assms mult_pow2)
  also have "\<dots> = mult (mult a x) y" by (simp add: mult_assoc [symmetric] mult_commute [of x a])
  also have "\<dots> = y" by (simp add: assms mult_1_left)
  finally show ?thesis .
qed

lemma inverse_gf_eq:
  assumes "mult a x = 1"
  shows "inverse_gf a = x"
proof -
  have lt: "unat x < 256" using unsigned_less [of x] by simp
  have "find (\<lambda>n. mult a (of_nat n) = 1) [0..<256] = Some (unat x)"
    unfolding find_Some_iff
  proof (intro exI [of _ "unat x"] conjI allI impI)
    show "unat x < length [0..<256]" using lt by simp
    show "mult a (of_nat ([0..<256] ! unat x)) = 1" using lt assms by simp
    show "unat x = [0..<256] ! unat x" using lt by simp
  next
    fix j assume j: "j < unat x"
    then have j256: "j < 256" using lt by simp
    show "\<not> mult a (of_nat ([0..<256] ! j)) = 1"
    proof
      assume "mult a (of_nat ([0..<256] ! j)) = 1"
      then have "mult a (of_nat j) = 1" using j256 by simp
      then have "(of_nat j :: byte) = x" using assms by (rule inverse_unique)
      then have "unat (of_nat j :: byte) = unat x" by simp
      then have "j = unat x" using j256 by (simp add: unat_of_nat)
      then show False using j by simp
    qed
  qed
  then show ?thesis by (simp add: inverse_gf_def)
qed

lemma inverse_gf_0: "inverse_gf 0 = 0"
proof -
  have "find (\<lambda>n. mult 0 (of_nat n) = 1) [0..<256] = None"
    by (simp add: find_None_iff mult_0_left)
  then show ?thesis by (simp add: inverse_gf_def)
qed

lemma xtime_numeral:
  "xtime 0 = 0" "xtime 1 = 2"
  "xtime (numeral n) = push_bit 1 (numeral n) XOR sel (bit (numeral n :: byte) 7) 0x1B"
  by (simp_all add: xtime_alt)

lemma mult_loop_numeral:
  "mult_loop res a 0 = res"
  "mult_loop res a 1 = res XOR a"
  "mult_loop res a (numeral n) =
     mult_loop (res XOR sel (bit (numeral n :: byte) 0) a) (xtime a) (drop_bit 1 (numeral n))"
    apply (simp add: mult_loop.simps [of _ _ 0])
   apply (subst mult_loop_step, simp add: mult_loop.simps [of _ _ 0])
  apply (rule mult_loop_step)
  done

lemma inv_table_1: "mult (of_nat 1) (inv_table ! 1) = 1"
  by (simp add: inv_table_def mult_def mult_loop_numeral xtime_numeral)

lemma inv_table_chunk0: "list_all (\<lambda>n. mult (of_nat n) (inv_table ! n) = 1) [2..<32]"
  by (simp add: inv_table_def mult_def mult_loop_numeral xtime_numeral)

lemma inv_table_chunk1: "list_all (\<lambda>n. mult (of_nat n) (inv_table ! n) = 1) [32..<64]"
  by (simp add: inv_table_def mult_def mult_loop_numeral xtime_numeral)

lemma inv_table_chunk2: "list_all (\<lambda>n. mult (of_nat n) (inv_table ! n) = 1) [64..<96]"
  by (simp add: inv_table_def mult_def mult_loop_numeral xtime_numeral)

lemma inv_table_chunk3: "list_all (\<lambda>n. mult (of_nat n) (inv_table ! n) = 1) [96..<128]"
  by (simp add: inv_table_def mult_def mult_loop_numeral xtime_numeral)

lemma inv_table_chunk4: "list_all (\<lambda>n. mult (of_nat n) (inv_table ! n) = 1) [128..<160]"
  by (simp add: inv_table_def mult_def mult_loop_numeral xtime_numeral)

lemma inv_table_chunk5: "list_all (\<lambda>n. mult (of_nat n) (inv_table ! n) = 1) [160..<192]"
  by (simp add: inv_table_def mult_def mult_loop_numeral xtime_numeral)

lemma inv_table_chunk6: "list_all (\<lambda>n. mult (of_nat n) (inv_table ! n) = 1) [192..<224]"
  by (simp add: inv_table_def mult_def mult_loop_numeral xtime_numeral)

lemma inv_table_chunk7: "list_all (\<lambda>n. mult (of_nat n) (inv_table ! n) = 1) [224..<256]"
  by (simp add: inv_table_def mult_def mult_loop_numeral xtime_numeral)

lemma mult_inv_table:
  assumes "a \<noteq> 0"
  shows "mult a (inv_table ! unat a) = 1"
proof -
  let ?Q = "\<lambda>n. mult (of_nat n) (inv_table ! n) = 1"
  have "unat a < 256" using unsigned_less [of a] by simp
  moreover have "unat a \<noteq> 0" using assms by (simp add: unat_eq_0)
  ultimately consider "unat a = 1" | "unat a \<in> set [2..<32]" | "unat a \<in> set [32..<64]"
    | "unat a \<in> set [64..<96]" | "unat a \<in> set [96..<128]" | "unat a \<in> set [128..<160]"
    | "unat a \<in> set [160..<192]" | "unat a \<in> set [192..<224]" | "unat a \<in> set [224..<256]"
    unfolding set_upt atLeastLessThan_iff by arith
  then have "?Q (unat a)"
  proof cases
    case 1
    then show ?thesis using inv_table_1 by simp
  next
    case 2
    then show ?thesis by (rule list_allD [OF inv_table_chunk0])
  next
    case 3
    then show ?thesis by (rule list_allD [OF inv_table_chunk1])
  next
    case 4
    then show ?thesis by (rule list_allD [OF inv_table_chunk2])
  next
    case 5
    then show ?thesis by (rule list_allD [OF inv_table_chunk3])
  next
    case 6
    then show ?thesis by (rule list_allD [OF inv_table_chunk4])
  next
    case 7
    then show ?thesis by (rule list_allD [OF inv_table_chunk5])
  next
    case 8
    then show ?thesis by (rule list_allD [OF inv_table_chunk6])
  next
    case 9
    then show ?thesis by (rule list_allD [OF inv_table_chunk7])
  qed
  then show ?thesis by simp
qed

lemma inverse_gf_table: "inverse_gf a = inv_table ! unat a"
proof (cases "a = 0")
  case True
  then show ?thesis by (simp add: inverse_gf_0 inv_table_def)
next
  case False
  then show ?thesis by (simp add: inverse_gf_eq mult_inv_table)
qed

lemma inverse_gf_involution: "inverse_gf (inverse_gf a) = a"
proof (cases "a = 0")
  case True
  then show ?thesis by (simp add: inverse_gf_0)
next
  case False
  then have 1: "mult a (inv_table ! unat a) = 1" by (rule mult_inv_table)
  then have 2: "inverse_gf a = inv_table ! unat a" by (rule inverse_gf_eq)
  from 1 have "mult (inv_table ! unat a) a = 1" by (simp add: mult_commute)
  then have "inverse_gf (inv_table ! unat a) = a" by (rule inverse_gf_eq)
  then show ?thesis by (simp add: 2)
qed

lemma to_ulong_horner: "to_ulong bs = horner_sum of_bool 2 bs"
  by (induction bs) (simp_all add: to_ulong_def)

lemma bit_affine:
  "n < 8 \<Longrightarrow> bit (affine i) n =
     (((((bit i n \<noteq> bit i ((n + 4) mod 8)) \<noteq> bit i ((n + 5) mod 8))
         \<noteq> bit i ((n + 6) mod 8)) \<noteq> bit i ((n + 7) mod 8)) \<noteq> bit (0x63 :: byte) n)"
  by (simp add: affine_def to_ulong_horner bit_horner_sum_bit_iff)

lemma inv_affine_bit0:
  "bit (word_rotl 1 (affine i) XOR word_rotl 3 (affine i) XOR word_rotl 6 (affine i) XOR 0x05) 0
     = bit i 0"
  apply (simp add: bit_xor_iff bit_word_rotl_iff bit_affine)
  apply (simp only: One_nat_def [symmetric] Suc_1)?
  apply argo?
  done

lemma inv_affine_bit1:
  "bit (word_rotl 1 (affine i) XOR word_rotl 3 (affine i) XOR word_rotl 6 (affine i) XOR 0x05) 1
     = bit i 1"
  apply (simp add: bit_xor_iff bit_word_rotl_iff bit_affine)
  apply (simp only: One_nat_def [symmetric] Suc_1)?
  apply argo?
  done

lemma inv_affine_bit2:
  "bit (word_rotl 1 (affine i) XOR word_rotl 3 (affine i) XOR word_rotl 6 (affine i) XOR 0x05) 2
     = bit i 2"
  apply (simp add: bit_xor_iff bit_word_rotl_iff bit_affine)
  apply (simp only: One_nat_def [symmetric] Suc_1)?
  apply argo?
  done

lemma inv_affine_bit3:
  "bit (word_rotl 1 (affine i) XOR word_rotl 3 (affine i) XOR word_rotl 6 (affine i) XOR 0x05) 3
     = bit i 3"
  apply (simp add: bit_xor_iff bit_word_rotl_iff bit_affine)
  apply (simp only: One_nat_def [symmetric] Suc_1)?
  apply argo?
  done

lemma inv_affine_bit4:
  "bit (word_rotl 1 (affine i) XOR word_rotl 3 (affine i) XOR word_rotl 6 (affine i) XOR 0x05) 4
     = bit i 4"
  apply (simp add: bit_xor_iff bit_word_rotl_iff bit_affine)
  apply (simp only: One_nat_def [symmetric] Suc_1)?
  apply argo?
  done

lemma inv_affine_bit5:
  "bit (word_rotl 1 (affine i) XOR word_rotl 3 (affine i) XOR word_rotl 6 (affine i) XOR 0x05) 5
     = bit i 5"
  apply (simp add: bit_xor_iff bit_word_rotl_iff bit_affine)
  apply (simp only: One_nat_def [symmetric] Suc_1)?
  apply argo?
  done

lemma inv_affine_bit6:
  "bit (word_rotl 1 (affine i) XOR word_rotl 3 (affine i) XOR word_rotl 6 (affine i) XOR 0x05) 6
     = bit i 6"
  apply (simp add: bit_xor_iff bit_word_rotl_iff bit_affine)
  apply (simp only: One_nat_def [symmetric] Suc_1)?
  apply argo?
  done

lemma inv_affine_bit7:
  "bit (word_rotl 1 (affine i) XOR word_rotl 3 (affine i) XOR word_rotl 6 (affine i) XOR 0x05) 7
     = bit i 7"
  apply (simp add: bit_xor_iff bit_word_rotl_iff bit_affine)
  apply (simp only: One_nat_def [symmetric] Suc_1)?
  apply argo?
  done

lemma inv_affine_affine:
  "word_rotl 1 (affine i) XOR word_rotl 3 (affine i) XOR word_rotl 6 (affine i) XOR 0x05 = i"
proof (rule bit_word_eqI)
  let ?r = "word_rotl 1 (affine i) XOR word_rotl 3 (affine i) XOR word_rotl 6 (affine i) XOR 0x05"
  fix n assume "n < LENGTH(8)"
  then have n: "n < 8" by simp
  have "list_all (\<lambda>n. bit ?r n = bit i n) [0..<8]"
    using inv_affine_bit0 [of i] inv_affine_bit1 [of i] inv_affine_bit2 [of i] inv_affine_bit3 [of i]
      inv_affine_bit4 [of i] inv_affine_bit5 [of i] inv_affine_bit6 [of i] inv_affine_bit7 [of i]
    by (simp only: upt_lists list.pred_inject simp_thms)
  with n show "bit ?r n = bit i n" by (rule below_cases)
qed

lemma InvSBox_SBox: "InvSBox (SBox b) = b"
  unfolding InvSBox_def SBox_def inv_affine_affine inverse_gf_involution ..

section \<open>The S-box as a table\<close>

lemma sbox_table_chunk0:
  "map affine [0, 1, 141, 246, 203, 82, 123, 209, 232, 79, 41, 192, 176, 225, 229, 199, 116, 180, 170, 75, 153, 43, 96, 95, 88, 63, 253, 204, 255, 64, 238, 178]
   = [99, 124, 119, 123, 242, 107, 111, 197, 48, 1, 103, 43, 254, 215, 171, 118, 202, 130, 201, 125, 250, 89, 71, 240, 173, 212, 162, 175, 156, 164, 114, 192]"
  by (simp add: affine_def to_ulong_def upt_lists(4))

lemma sbox_table_chunk1:
  "map affine [58, 110, 90, 241, 85, 77, 168, 201, 193, 10, 152, 21, 48, 68, 162, 194, 44, 69, 146, 108, 243, 57, 102, 66, 242, 53, 32, 111, 119, 187, 89, 25]
   = [183, 253, 147, 38, 54, 63, 247, 204, 52, 165, 229, 241, 113, 216, 49, 21, 4, 199, 35, 195, 24, 150, 5, 154, 7, 18, 128, 226, 235, 39, 178, 117]"
  by (simp add: affine_def to_ulong_def upt_lists(4))

lemma sbox_table_chunk2:
  "map affine [29, 254, 55, 103, 45, 49, 245, 105, 167, 100, 171, 19, 84, 37, 233, 9, 237, 92, 5, 202, 76, 36, 135, 191, 24, 62, 34, 240, 81, 236, 97, 23]
   = [9, 131, 44, 26, 27, 110, 90, 160, 82, 59, 214, 179, 41, 227, 47, 132, 83, 209, 0, 237, 32, 252, 177, 91, 106, 203, 190, 57, 74, 76, 88, 207]"
  by (simp add: affine_def to_ulong_def upt_lists(4))

lemma sbox_table_chunk3:
  "map affine [22, 94, 175, 211, 73, 166, 54, 67, 244, 71, 145, 223, 51, 147, 33, 59, 121, 183, 151, 133, 16, 181, 186, 60, 182, 112, 208, 6, 161, 250, 129, 130]
   = [208, 239, 170, 251, 67, 77, 51, 133, 69, 249, 2, 127, 80, 60, 159, 168, 81, 163, 64, 143, 146, 157, 56, 245, 188, 182, 218, 33, 16, 255, 243, 210]"
  by (simp add: affine_def to_ulong_def upt_lists(4))

lemma sbox_table_chunk4:
  "map affine [131, 126, 127, 128, 150, 115, 190, 86, 155, 158, 149, 217, 247, 2, 185, 164, 222, 106, 50, 109, 216, 138, 132, 114, 42, 20, 159, 136, 249, 220, 137, 154]
   = [205, 12, 19, 236, 95, 151, 68, 23, 196, 167, 126, 61, 100, 93, 25, 115, 96, 129, 79, 220, 34, 42, 144, 136, 70, 238, 184, 20, 222, 94, 11, 219]"
  by (simp add: affine_def to_ulong_def upt_lists(4))

lemma sbox_table_chunk5:
  "map affine [251, 124, 46, 195, 143, 184, 101, 72, 38, 200, 18, 74, 206, 231, 210, 98, 12, 224, 31, 239, 17, 117, 120, 113, 165, 142, 118, 61, 189, 188, 134, 87]
   = [224, 50, 58, 10, 73, 6, 36, 92, 194, 211, 172, 98, 145, 149, 228, 121, 231, 200, 55, 109, 141, 213, 78, 169, 108, 86, 244, 234, 101, 122, 174, 8]"
  by (simp add: affine_def to_ulong_def upt_lists(4))

lemma sbox_table_chunk6:
  "map affine [11, 40, 47, 163, 218, 212, 228, 15, 169, 39, 83, 4, 27, 252, 172, 230, 122, 7, 174, 99, 197, 219, 226, 234, 148, 139, 196, 213, 157, 248, 144, 107]
   = [186, 120, 37, 46, 28, 166, 180, 198, 232, 221, 116, 31, 75, 189, 139, 138, 112, 62, 181, 102, 72, 3, 246, 14, 97, 53, 87, 185, 134, 193, 29, 158]"
  by (simp add: affine_def to_ulong_def upt_lists(4))

lemma sbox_table_chunk7:
  "map affine [177, 13, 214, 235, 198, 14, 207, 173, 8, 78, 215, 227, 93, 80, 30, 179, 91, 35, 56, 52, 104, 70, 3, 140, 221, 156, 125, 160, 205, 26, 65, 28]
   = [225, 248, 152, 17, 105, 217, 142, 148, 155, 30, 135, 233, 206, 85, 40, 223, 140, 161, 137, 13, 191, 230, 66, 104, 65, 153, 45, 15, 176, 84, 187, 22]"
  by (simp add: affine_def to_ulong_def upt_lists(4))

lemma map_affine_inv_table: "map affine inv_table = sbox_table"
proof -
  have e: "inv_table = [0, 1, 141, 246, 203, 82, 123, 209, 232, 79, 41, 192, 176, 225, 229, 199, 116, 180, 170, 75, 153, 43, 96, 95, 88, 63, 253, 204, 255, 64, 238, 178] @ [58, 110, 90, 241, 85, 77, 168, 201, 193, 10, 152, 21, 48, 68, 162, 194, 44, 69, 146, 108, 243, 57, 102, 66, 242, 53, 32, 111, 119, 187, 89, 25] @ [29, 254, 55, 103, 45, 49, 245, 105, 167, 100, 171, 19, 84, 37, 233, 9, 237, 92, 5, 202, 76, 36, 135, 191, 24, 62, 34, 240, 81, 236, 97, 23] @ [22, 94, 175, 211, 73, 166, 54, 67, 244, 71, 145, 223, 51, 147, 33, 59, 121, 183, 151, 133, 16, 181, 186, 60, 182, 112, 208, 6, 161, 250, 129, 130] @ [131, 126, 127, 128, 150, 115, 190, 86, 155, 158, 149, 217, 247, 2, 185, 164, 222, 106, 50, 109, 216, 138, 132, 114, 42, 20, 159, 136, 249, 220, 137, 154] @ [251, 124, 46, 195, 143, 184, 101, 72, 38, 200, 18, 74, 206, 231, 210, 98, 12, 224, 31, 239, 17, 117, 120, 113, 165, 142, 118, 61, 189, 188, 134, 87] @ [11, 40, 47, 163, 218, 212, 228, 15, 169, 39, 83, 4, 27, 252, 172, 230, 122, 7, 174, 99, 197, 219, 226, 234, 148, 139, 196, 213, 157, 248, 144, 107] @ [177, 13, 214, 235, 198, 14, 207, 173, 8, 78, 215, 227, 93, 80, 30, 179, 91, 35, 56, 52, 104, 70, 3, 140, 221, 156, 125, 160, 205, 26, 65, 28]"
    by (simp add: inv_table_def)
  show ?thesis
    unfolding e map_append sbox_table_chunk0 sbox_table_chunk1 sbox_table_chunk2 sbox_table_chunk3 sbox_table_chunk4 sbox_table_chunk5 sbox_table_chunk6 sbox_table_chunk7 sbox_table_def by simp
qed

lemma length_inv_table: "length inv_table = 256"
  by code_simp

lemma SBox_table: "SBox a = sbox_table ! unat a"
proof -
  have "unat a < length inv_table"
    using unsigned_less [of a] by (simp add: length_inv_table)
  then have "map affine inv_table ! unat a = affine (inv_table ! unat a)"
    by (rule nth_map)
  then show ?thesis
    by (simp add: SBox_def inverse_gf_table map_affine_inv_table)
qed


section \<open>Inverse steps of the cipher\<close>

lemma mult_numerals:
  "mult (numeral p) (numeral q) = mult_loop 0 (numeral p) (numeral q)"
  "mult (numeral p) 1 = numeral p"
  by (simp_all add: mult_def mult_loop_numeral)

lemma mix_compose:
  "mult na (mult maa xa XOR mult mab xb XOR mult mac xc XOR mult mad xd)
   XOR mult nb (mult mba xa XOR mult mbb xb XOR mult mbc xc XOR mult mbd xd)
   XOR mult nc (mult mca xa XOR mult mcb xb XOR mult mcc xc XOR mult mcd xd)
   XOR mult nd (mult mda xa XOR mult mdb xb XOR mult mdc xc XOR mult mdd xd)
   = mult (mult na maa XOR mult nb mba XOR mult nc mca XOR mult nd mda) xa
     XOR mult (mult na mab XOR mult nb mbb XOR mult nc mcb XOR mult nd mdb) xb
     XOR mult (mult na mac XOR mult nb mbc XOR mult nc mcc XOR mult nd mdc) xc
     XOR mult (mult na mad XOR mult nb mbd XOR mult nc mcd XOR mult nd mdd) xd"
  by (simp add: mult_xor_right mult_xor_left mult_assoc xor.assoc xor.commute xor.left_commute)

lemma mix_inverse:
  fixes a0 a1 a2 a3 :: byte
  defines "m0 \<equiv> mult 2 a0 XOR mult 3 a1 XOR a2 XOR a3"
      and "m1 \<equiv> a0 XOR mult 2 a1 XOR mult 3 a2 XOR a3"
      and "m2 \<equiv> a0 XOR a1 XOR mult 2 a2 XOR mult 3 a3"
      and "m3 \<equiv> mult 3 a0 XOR a1 XOR a2 XOR mult 2 a3"
  shows "mult 0xe m0 XOR mult 0xb m1 XOR mult 0xd m2 XOR mult 0x9 m3 = a0"
    and "mult 0x9 m0 XOR mult 0xe m1 XOR mult 0xb m2 XOR mult 0xd m3 = a1"
    and "mult 0xd m0 XOR mult 0x9 m1 XOR mult 0xe m2 XOR mult 0xb m3 = a2"
    and "mult 0xb m0 XOR mult 0xd m1 XOR mult 0x9 m2 XOR mult 0xe m3 = a3"
proof -
  note ev = mult_numerals mult_loop_numeral xtime_numeral mult_1_left mult_0_left
  show "mult 0xe m0 XOR mult 0xb m1 XOR mult 0xd m2 XOR mult 0x9 m3 = a0"
    using mix_compose [where na = "14" and maa = "2" and mab = "3" and mac = "1" and mad = "1" and nb = "11" and mba = "1" and mbb = "2" and mbc = "3" and mbd = "1" and nc = "13" and mca = "1" and mcb = "1" and mcc = "2" and mcd = "3" and nd = "9" and mda = "3" and mdb = "1" and mdc = "1" and mdd = "2" and xa = a0 and xb = a1 and xc = a2 and xd = a3]
    unfolding m0_def m1_def m2_def m3_def by (simp add: ev)
  show "mult 0x9 m0 XOR mult 0xe m1 XOR mult 0xb m2 XOR mult 0xd m3 = a1"
    using mix_compose [where na = "9" and maa = "2" and mab = "3" and mac = "1" and mad = "1" and nb = "14" and mba = "1" and mbb = "2" and mbc = "3" and mbd = "1" and nc = "11" and mca = "1" and mcb = "1" and mcc = "2" and mcd = "3" and nd = "13" and mda = "3" and mdb = "1" and mdc = "1" and mdd = "2" and xa = a0 and xb = a1 and xc = a2 and xd = a3]
    unfolding m0_def m1_def m2_def m3_def by (simp add: ev)
  show "mult 0xd m0 XOR mult 0x9 m1 XOR mult 0xe m2 XOR mult 0xb m3 = a2"
    using mix_compose [where na = "13" and maa = "2" and mab = "3" and mac = "1" and mad = "1" and nb = "9" and mba = "1" and mbb = "2" and mbc = "3" and mbd = "1" and nc = "14" and mca = "1" and mcb = "1" and mcc = "2" and mcd = "3" and nd = "11" and mda = "3" and mdb = "1" and mdc = "1" and mdd = "2" and xa = a0 and xb = a1 and xc = a2 and xd = a3]
    unfolding m0_def m1_def m2_def m3_def by (simp add: ev)
  show "mult 0xb m0 XOR mult 0xd m1 XOR mult 0x9 m2 XOR mult 0xe m3 = a3"
    using mix_compose [where na = "11" and maa = "2" and mab = "3" and mac = "1" and mad = "1" and nb = "13" and mba = "1" and mbb = "2" and mbc = "3" and mbd = "1" and nc = "9" and mca = "1" and mcb = "1" and mcc = "2" and mcd = "3" and nd = "14" and mda = "3" and mdb = "1" and mdc = "1" and mdd = "2" and xa = a0 and xb = a1 and xc = a2 and xd = a3]
    unfolding m0_def m1_def m2_def m3_def by (simp add: ev)
qed

lemma InvMixColumns_MixColumns: "InvMixColumns_array (MixColumns_array s) = s"
proof (rule state_array_eqI)
  fix i j :: nat assume i: "i < 4" and j: "j < 4"
  from j have "j = 0 \<or> j = 1 \<or> j = 2 \<or> j = 3" by arith
  then show "cell (InvMixColumns_array (MixColumns_array s)) i j = cell s i j"
    using i by (elim disjE) (simp_all add: InvMixColumns_array_def MixColumns_array_def cell_build mix_inverse)
qed

lemma shift_index: "i < 4 \<Longrightarrow> j < 4 \<Longrightarrow> (((i + 2 ^ 64 - j) mod 2 ^ 64) mod 4 + j) mod 4 = i" for i j :: nat
proof -
  assume "i < 4" "j < 4"
  then have "(i = 0 \<or> i = 1 \<or> i = 2 \<or> i = 3) \<and> (j = 0 \<or> j = 1 \<or> j = 2 \<or> j = 3)" by arith
  then show ?thesis by (elim conjE disjE) simp_all
qed

lemma InvShiftRows_ShiftRows: "InvShiftRows_array (ShiftRows_array s) = s"
  by (rule state_array_eqI)
     (simp add: InvShiftRows_array_def ShiftRows_array_def cell_build shift_index [simplified])

lemma InvSubBytes_SubBytes: "InvSubBytes_array (SubBytes_array s) = s"
  by (rule state_array_eqI)
     (simp add: InvSubBytes_array_def SubBytes_array_def cell_build InvSBox_SBox)

lemma AddRoundKey_twice: "AddRoundKey_array r w (AddRoundKey_array r w s) = s"
  by (rule state_array_eqI) (simp add: AddRoundKey_array_def cell_build xor.assoc)

lemma rev_upt_Suc: "rev [1..<Suc (Suc n)] = Suc n # rev [1..<Suc n]"
  by simp

lemma InvCipher_block_Cipher_block:
  "InvCipher_block Nr w (Cipher_block Nr w a) = a"
proof -
  let ?step = "\<lambda>x a. AddRoundKey_array (x + 1) w (MixColumns_array (ShiftRows_array (SubBytes_array a)))"
  let ?istep = "\<lambda>x a. InvMixColumns_array (AddRoundKey_array x w (InvSubBytes_array (InvShiftRows_array a)))"
  let ?pre = "\<lambda>n y. ShiftRows_array (SubBytes_array (fold ?step [0..<n] y))"
  have undo: "fold ?istep (rev [1..<Suc n]) (?pre n y) = ?pre 0 y" for n y
  proof (induction n)
    case 0
    show ?case by simp
  next
    case (Suc n)
    have "?istep (Suc n) (?pre (Suc n) y) = ?pre n y"
      by (simp add: InvShiftRows_ShiftRows InvSubBytes_SubBytes AddRoundKey_twice
          InvMixColumns_MixColumns)
    then show ?case using Suc.IH by (simp only: rev_upt_Suc fold_simps)
  qed
  have "Nr - 1 = 0 \<or> (\<exists>n. Nr - 1 = n \<and> Nr = Suc n)" by arith
  show ?thesis
  proof (cases Nr)
    case 0
    then show ?thesis
      by (simp add: InvCipher_block_def Cipher_block_def AddRoundKey_twice
          InvShiftRows_ShiftRows InvSubBytes_SubBytes)
  next
    case (Suc n)
    then show ?thesis
      using undo [of n "AddRoundKey_array 0 w a"]
      by (simp add: InvCipher_block_def Cipher_block_def AddRoundKey_twice
          InvShiftRows_ShiftRows InvSubBytes_SubBytes del: upt_Suc)
  qed
qed

section \<open>Strings and blocks\<close>

lemma unravel_array_cells:
  "unravel_array s =
     [cell s 0 0, cell s 0 1, cell s 0 2, cell s 0 3, cell s 1 0, cell s 1 1, cell s 1 2, cell s 1 3,
      cell s 2 0, cell s 2 1, cell s 2 2, cell s 2 3, cell s 3 0, cell s 3 1, cell s 3 2, cell s 3 3]"
  by (simp add: unravel_array_def upt_lists)

lemma length_unravel_array [simp]: "length (unravel_array s) = 16"
  by (simp add: unravel_array_cells)

lemma state_array_at_drop:
  "state_array_at inp x = state_array_at (drop x inp) 0"
  by (simp add: state_array_at_def) (rule build_cong, auto)

lemma split_arrays_drop: "split_arrays inp x = split_arrays (drop x inp) 0"
proof (induction "length inp - x" arbitrary: inp x rule: less_induct)
  case less
  show ?case
  proof (cases "x < length inp")
    case False
    then show ?thesis
      by (simp add: split_arrays.simps [of inp x] split_arrays.simps [of "[]" 0])
  next
    case True
    let ?d = "drop x inp"
    have 1: "split_arrays inp (advance inp x) = split_arrays (drop (advance inp x) inp) 0"
      using True by (intro less) (simp add: advance_def)
    have 2: "split_arrays ?d (advance ?d 0) = split_arrays (drop (advance ?d 0) ?d) 0"
      using True by (intro less) (simp add: advance_def)
    have 3: "advance ?d 0 + x = advance inp x"
      using True by (auto simp add: advance_def min_def)
    show ?thesis
      using True
      by (simp add: split_arrays.simps [of inp x] split_arrays.simps [of ?d 0] 1 2 3
          state_array_at_drop [of inp x])
  qed
qed

lemma split_arrays_step:
  "inp \<noteq> [] \<Longrightarrow> split_arrays inp 0 = state_array_at inp 0 # split_arrays (drop 16 inp) 0"
proof -
  assume ne: "inp \<noteq> []"
  have "split_arrays inp (advance inp 0) = split_arrays (drop (advance inp 0) inp) 0"
    by (rule split_arrays_drop)
  moreover have "drop (advance inp 0) inp = drop 16 inp"
    by (simp add: advance_def min_def)
  ultimately show ?thesis
    using ne by (simp add: split_arrays.simps [of inp 0])
qed

lemma state_array_at_unravel: "state_array_at (unravel_array b @ rest) 0 = b"
proof (rule state_array_eqI)
  fix i j :: nat assume "i < 4" "j < 4"
  then have ij: "(i = 0 \<or> i = 1 \<or> i = 2 \<or> i = 3) \<and> (j = 0 \<or> j = 1 \<or> j = 2 \<or> j = 3)" by arith
  have "cell (state_array_at (unravel_array b @ rest) 0) i j = (unravel_array b @ rest) ! (4 * i + j)"
    using \<open>i < 4\<close> \<open>j < 4\<close> by (simp add: state_array_at_def cell_build)
  also have "\<dots> = unravel_array b ! (4 * i + j)"
    using \<open>i < 4\<close> \<open>j < 4\<close> by (simp add: nth_append)
  also have "\<dots> = cell b i j"
    using ij by (elim conjE disjE) (simp_all add: unravel_array_cells)
  finally show "cell (state_array_at (unravel_array b @ rest) 0) i j = cell b i j" .
qed

lemma split_arrays_unravel: "split_arrays (concat (map unravel_array bs)) 0 = bs"
proof (induction bs)
  case Nil
  show ?case by (simp add: split_nil)
next
  case (Cons b bs)
  have "unravel_array b @ concat (map unravel_array bs) \<noteq> []"
    by (simp add: unravel_array_cells)
  then show ?case
    using Cons.IH by (simp add: split_arrays_step state_array_at_unravel)
qed

lemma take_16_nth:
  assumes "16 \<le> length xs"
  shows "take 16 xs = [xs ! 0, xs ! 1, xs ! 2, xs ! 3, xs ! 4, xs ! 5, xs ! 6, xs ! 7,
                       xs ! 8, xs ! 9, xs ! 10, xs ! 11, xs ! 12, xs ! 13, xs ! 14, xs ! 15]"
proof -
  have "take 16 xs = take 16 (map ((!) xs) [0..<length xs])" by (simp add: map_nth)
  also have "\<dots> = map ((!) xs) [0..<16]" using assms by (simp add: take_map)
  finally show ?thesis by (simp add: upt_16)
qed

lemma unravel_array_nth:
  assumes "i < 16"
  shows "unravel_array s ! i = cell s (i div 4) (i mod 4)"
proof -
  have "list_all (\<lambda>i. unravel_array s ! i = cell s (i div 4) (i mod 4)) [0..<16]"
    by (simp add: upt_16 unravel_array_cells)
  with assms show ?thesis by (rule below_cases)
qed

lemma unravel_state_array_at: "unravel_array (state_array_at inp 0) = take 16 (inp @ replicate 16 0)"
proof (rule nth_equalityI)
  show "length (unravel_array (state_array_at inp 0)) = length (take 16 (inp @ replicate 16 0))"
    by simp
next
  fix i assume "i < length (unravel_array (state_array_at inp 0))"
  then have i: "i < 16" by simp
  then have d: "i div 4 < 4" "i mod 4 < 4" "4 * (i div 4) + i mod 4 = i" by simp_all
  have "unravel_array (state_array_at inp 0) ! i = cell (state_array_at inp 0) (i div 4) (i mod 4)"
    using i by (rule unravel_array_nth)
  also have "\<dots> = (inp @ replicate 16 0) ! i"
    using i d by (simp add: state_array_at_def cell_build nth_append)
  also have "\<dots> = take 16 (inp @ replicate 16 0) ! i"
    using i by (simp only: nth_take)
  finally show "unravel_array (state_array_at inp 0) ! i = take 16 (inp @ replicate 16 0) ! i" .
qed

lemma zero_pad_step:
  assumes "inp \<noteq> []"
  shows "zero_pad inp = take 16 (inp @ replicate 16 0) @ zero_pad (drop 16 inp)"
proof (cases "16 \<le> length inp")
  case True
  then have "(length inp - 16) mod 16 = length inp mod 16"
    by (simp add: le_mod_geq)
  then show ?thesis using True by (simp add: zero_pad_def)
next
  case False
  then have "0 < length inp" "length inp < 16" using assms by simp_all
  then show ?thesis by (simp add: zero_pad_def)
qed

lemma unravel_split_arrays: "concat (map unravel_array (split_arrays inp 0)) = zero_pad inp"
proof (induction inp rule: length_induct)
  case (1 inp)
  show ?case
  proof (cases "inp = []")
    case True
    then show ?thesis by (simp add: split_nil zero_pad_def)
  next
    case False
    then have "length (drop 16 inp) < length inp" by simp
    then have "concat (map unravel_array (split_arrays (drop 16 inp) 0)) = zero_pad (drop 16 inp)"
      using 1 by blast
    then show ?thesis
      using False by (simp add: split_arrays_step unravel_state_array_at zero_pad_step)
  qed
qed

lemma zero_pad_full: "length inp mod 16 = 0 \<Longrightarrow> zero_pad inp = inp"
  by (simp add: zero_pad_def)

section \<open>Decryption after encryption\<close>

lemma and_then_Inr [simp]: "and_then (Inr x) f = f x"
  by (simp add: and_then_def)

lemma and_then_Inl [simp]: "and_then (Inl e) f = Inl e"
  by (simp add: and_then_def)

lemma concat_map_unravel_comp:
  "concat (map (unravel_array \<circ> f) bs) = concat (map unravel_array (map f bs))"
  by simp

lemma InvCipher_Cipher_pad:
  assumes "Nr = 10 \<or> Nr = 12 \<or> Nr = 14"
  shows "InvCipher_Cipher past inp k Nr = Inr (zero_pad inp)"
proof -
  from assms obtain w where w: "Schedule past k Nr = Inr w"
    using Schedule_valid by blast
  have "map (InvCipher_block Nr w) (map (Cipher_block Nr w) bs) = bs" for bs
    by (induction bs) (simp_all add: InvCipher_block_Cipher_block)
  then show ?thesis
    unfolding InvCipher_Cipher_def Cipher_valid [OF w] and_then_Inr InvCipher_valid [OF w]
      concat_map_unravel_comp split_arrays_unravel
    by (simp only: unravel_split_arrays)
qed

lemma xor_arr_twice: "xor_arr (xor_arr a p) p = a"
  by (rule state_array_eqI) (simp add: xor_arr_def cell_build xor.assoc)

lemma Ctr_loop_twice:
  assumes w: "Schedule past k Nr = Inr w"
  shows "\<exists>bs. Ctr_loop past k Nr as n = Inr bs \<and> Ctr_loop past k Nr bs n = Inr as"
proof (induction as arbitrary: n)
  case Nil
  show ?case by simp
next
  case (Cons a as)
  from Cons.IH [of "n + 1"] obtain bs where
    bs: "Ctr_loop past k Nr as (n + 1) = Inr bs" "Ctr_loop past k Nr bs (n + 1) = Inr as"
    by blast
  show ?case
    by (simp add: Cipher_valid [OF w] bs xor_arr_twice)
qed

lemma Ctr_Ctr_pad:
  assumes "Nr = 10 \<or> Nr = 12 \<or> Nr = 14"
  shows "Ctr_Ctr past inp k Nr n = Inr (zero_pad inp)"
proof -
  from assms obtain w where w: "Schedule past k Nr = Inr w"
    using Schedule_valid by blast
  obtain bs where
    bs: "Ctr_loop past k Nr (split_arrays inp 0) n = Inr bs"
        "Ctr_loop past k Nr bs n = Inr (split_arrays inp 0)"
    using Ctr_loop_twice [OF w] by blast
  show ?thesis
    by (simp add: Ctr_Ctr_def Ctr_def state_of_string_def w bs unravel_def
        split_arrays_unravel unravel_split_arrays)
qed

lemma replicate_13: "replicate 13 x = [x, x, x, x, x, x, x, x, x, x, x, x, x]"
  by (simp add: eval_nat_numeral)


text \<open>
  C5: for a valid round count, \<open>InvCipher\<close> applied to the result of \<open>Cipher\<close>
  (same key, same round count) returns the input zero-padded to a multiple of sixteen
  bytes; for a sixteen-byte input that is the input itself.
\<close>

theorem InvCipher_inverts_Cipher:
  "Nr = 10 \<or> Nr = 12 \<or> Nr = 14 \<Longrightarrow>
     InvCipher_Cipher past inp k Nr = Inr (zero_pad inp)
     \<and> (length inp = 16 \<longrightarrow> InvCipher_Cipher past inp k Nr = Inr inp)"
  by (simp add: InvCipher_Cipher_pad zero_pad_def)

theorem InvCipher_inverts_Cipher_witness:
  "((14::nat) = 10 \<or> (14::nat) = 12 \<or> (14::nat) = 14)
   \<and> InvCipher_Cipher 0 [1, 2, 3] (Arr4 1 2 3 4) 14 = Inr [1, 2, 3, 0, 0, 0, 0, 0, 0, 0, 0, 0, 0, 0, 0, 0]
   \<and> InvCipher_Cipher 0 [1, 2, 3, 4, 5, 6, 7, 8, 9, 10, 11, 12, 13, 14, 15, 16] (Arr4 1 2 3 4) 14
       = Inr [1, 2, 3, 4, 5, 6, 7, 8, 9, 10, 11, 12, 13, 14, 15, 16]"
  using InvCipher_inverts_Cipher [of 14 0 "[1, 2, 3]" "Arr4 1 2 3 4"]
    InvCipher_inverts_Cipher [of 14 0 "[1, 2, 3, 4, 5, 6, 7, 8, 9, 10, 11, 12, 13, 14, 15, 16]" "Arr4 1 2 3 4"]
  by (simp add: zero_pad_def replicate_13)


text \<open>
  C6, as stated, fails on a three-byte message: \<open>Ctr\<close> returns whole blocks, so
  applying it twice gives sixteen bytes, not the three of the message.
\<close>

theorem Ctr_twice_not_identity:
  "Ctr_Ctr 0 [1, 2, 3] (Arr4 1 2 3 4) 12 7 \<noteq> Inr [1, 2, 3]"
  by (simp add: Ctr_Ctr_pad zero_pad_def)

text \<open>
  C6, amended: for a valid round count, \<open>Ctr\<close> applied twice with the same key and
  starting nonce returns the message zero-padded to a multiple of sixteen bytes; it
  returns the message itself when its length is a multiple of sixteen.
\<close>

theorem Ctr_twice_zero_pads:
  "Nr = 10 \<or> Nr = 12 \<or> Nr = 14 \<Longrightarrow>
     Ctr_Ctr past inp k Nr n = Inr (zero_pad inp)
     \<and> (length inp mod 16 = 0 \<longrightarrow> Ctr_Ctr past inp k Nr n = Inr inp)"
  by (simp add: Ctr_Ctr_pad zero_pad_def)

theorem Ctr_twice_zero_pads_witness:
  "((12::nat) = 10 \<or> (12::nat) = 12 \<or> (12::nat) = 14)
   \<and> Ctr_Ctr 0 [1, 2, 3] (Arr4 1 2 3 4) 12 7 = Inr [1, 2, 3, 0, 0, 0, 0, 0, 0, 0, 0, 0, 0, 0, 0, 0]
   \<and> Ctr_Ctr 0 [1, 2, 3, 4, 5, 6, 7, 8, 9, 10, 11, 12, 13, 14, 15, 16] (Arr4 1 2 3 4) 12 7
       = Inr [1, 2, 3, 4, 5, 6, 7, 8, 9, 10, 11, 12, 13, 14, 15, 16]"
  using Ctr_twice_zero_pads [of 12 0 "[1, 2, 3]" "Arr4 1 2 3 4" 7]
    Ctr_twice_zero_pads [of 12 0 "[1, 2, 3, 4, 5, 6, 7, 8, 9, 10, 11, 12, 13, 14, 15, 16]" "Arr4 1 2 3 4" 7]
  by (simp add: zero_pad_def replicate_13)

section \<open>The key schedule\<close>

lemma Expansion_step_alt:
  "Expansion_step past Nk i w = w[i := w ! (i - Nk) XOR Expansion_temp past Nk i (w ! (i - 1))]"
  by (simp add: Expansion_step_def Expansion_temp_def Let_def)

lemma fold_upt_Suc: "a \<le> n \<Longrightarrow> fold f [a..<Suc n] w = f n (fold f [a..<n] w)"
  by simp

lemma copy_words:
  assumes "n \<le> L"
  shows "length (fold (\<lambda>i w. w[i := ws ! i]) [0..<n] (replicate L (0::word32))) = L
       \<and> (\<forall>i<L. fold (\<lambda>i w. w[i := ws ! i]) [0..<n] (replicate L 0) ! i = (if i < n then ws ! i else 0))"
  using assms
proof (induction n)
  case 0
  show ?case by simp
next
  case (Suc n)
  then show ?case by (auto simp add: nth_list_update)
qed

lemma expand_words:
  fixes past :: word32
  assumes "1 \<le> Nk" "Nk \<le> n" "n \<le> length w"
  shows "length (fold (Expansion_step past Nk) [Nk..<n] w) = length w
       \<and> (\<forall>i. i < Nk \<or> n \<le> i \<longrightarrow> fold (Expansion_step past Nk) [Nk..<n] w ! i = w ! i)
       \<and> (\<forall>i. Nk \<le> i \<and> i < n \<longrightarrow>
             fold (Expansion_step past Nk) [Nk..<n] w ! i
             = fold (Expansion_step past Nk) [Nk..<n] w ! (i - Nk)
               XOR Expansion_temp past Nk i (fold (Expansion_step past Nk) [Nk..<n] w ! (i - 1)))"
  using assms(2,3)
proof (induction n)
  case 0
  then show ?case by simp
next
  case (Suc n)
  show ?case
  proof (cases "Nk \<le> n")
    case False
    then have "Nk = Suc n" using Suc.prems by simp
    then show ?thesis by auto
  next
    case True
    let ?G = "fold (Expansion_step past Nk) [Nk..<n] w"
    have IH: "length ?G = length w"
      "\<And>i. i < Nk \<or> n \<le> i \<Longrightarrow> ?G ! i = w ! i"
      "\<And>i. Nk \<le> i \<Longrightarrow> i < n \<Longrightarrow> ?G ! i = ?G ! (i - Nk) XOR Expansion_temp past Nk i (?G ! (i - 1))"
      using Suc.IH True Suc.prems by auto
    have step: "fold (Expansion_step past Nk) [Nk..<Suc n] w
        = ?G[n := ?G ! (n - Nk) XOR Expansion_temp past Nk n (?G ! (n - 1))]"
      using True by (simp add: Expansion_step_alt)
    have n: "n < length ?G" using Suc.prems IH(1) by simp
    show ?thesis
      unfolding step
    proof (intro conjI allI impI)
      show "length (?G[n := ?G ! (n - Nk) XOR Expansion_temp past Nk n (?G ! (n - 1))]) = length w"
        using IH(1) by simp
    next
      fix i assume "i < Nk \<or> Suc n \<le> i"
      then show "?G[n := ?G ! (n - Nk) XOR Expansion_temp past Nk n (?G ! (n - 1))] ! i = w ! i"
        using True IH(2) [of i] by (auto simp add: nth_list_update)
    next
      fix i assume i: "Nk \<le> i \<and> i < Suc n"
      show "?G[n := ?G ! (n - Nk) XOR Expansion_temp past Nk n (?G ! (n - 1))] ! i
            = ?G[n := ?G ! (n - Nk) XOR Expansion_temp past Nk n (?G ! (n - 1))] ! (i - Nk)
              XOR Expansion_temp past Nk i
                   (?G[n := ?G ! (n - Nk) XOR Expansion_temp past Nk n (?G ! (n - 1))] ! (i - 1))"
      proof (cases "i = n")
        case True
        then show ?thesis using n i assms(1) by (simp add: nth_list_update)
      next
        case False
        then have "i < n" using i by simp
        then show ?thesis using i IH(3) [of i] assms(1) by (simp add: nth_list_update)
      qed
    qed
  qed
qed

lemma Expansion_words:
  fixes past :: word32 and k :: "word64 arr4"
  assumes "Nk = 4 \<or> Nk = 6 \<or> Nk = 8"
  defines "Nr \<equiv> (if Nk = 4 then 10 else if Nk = 6 then 12 else 14 :: nat)"
  defines "W \<equiv> Expansion past k Nk"
  shows "length W = 4 * Nr + 4"
    and "\<And>i. i < Nk \<Longrightarrow> W ! i = key_words k ! i"
    and "\<And>i. Nk \<le> i \<Longrightarrow> i < 4 * Nr + 3 \<Longrightarrow>
            W ! i = W ! (i - Nk) XOR Expansion_temp past Nk i (W ! (i - 1))"
    and "W ! (4 * Nr + 3) = 0"
proof -
  let ?L = "4 * Nr + 4"
  let ?w1 = "fold (\<lambda>i w. w[i := key_words k ! i]) [0..<Nk] (replicate ?L (0::word32))"
  have W: "W = fold (Expansion_step past Nk) [Nk..<4 * Nr + 3] ?w1"
    unfolding W_def Expansion_def Nr_def Let_def by simp
  have NkL: "Nk \<le> ?L" "1 \<le> Nk" "Nk \<le> 4 * Nr + 3" using assms(1) by (auto simp: Nr_def)
  have w1: "length ?w1 = ?L" "\<And>i. i < ?L \<Longrightarrow> ?w1 ! i = (if i < Nk then key_words k ! i else 0)"
    using copy_words [OF NkL(1), of "key_words k"] by simp_all
  have len: "4 * Nr + 3 \<le> length ?w1" using w1(1) by simp
  note ew = expand_words [OF NkL(2) NkL(3) len, of past]
  have E: "length W = length ?w1"
    "\<And>i. i < Nk \<or> 4 * Nr + 3 \<le> i \<Longrightarrow> W ! i = ?w1 ! i"
    "\<And>i. Nk \<le> i \<Longrightarrow> i < 4 * Nr + 3 \<Longrightarrow> W ! i = W ! (i - Nk) XOR Expansion_temp past Nk i (W ! (i - 1))"
    unfolding W using ew by blast+
  show "length W = 4 * Nr + 4" using E(1) w1(1) by simp
  show "\<And>i. i < Nk \<Longrightarrow> W ! i = key_words k ! i"
    using E(2) w1(2) NkL by simp
  show "\<And>i. Nk \<le> i \<Longrightarrow> i < 4 * Nr + 3 \<Longrightarrow>
            W ! i = W ! (i - Nk) XOR Expansion_temp past Nk i (W ! (i - 1))"
    using E(3) by simp
  show "W ! (4 * Nr + 3) = 0"
    using E(2) [of "4 * Nr + 3"] w1(2) [of "4 * Nr + 3"] NkL by simp
qed


text \<open>
  C4: for a 192-bit key (\<open>Nk = 6\<close>) the first computed word \<open>W[6]\<close> is
  \<open>W[0] XOR SubWord(RotWord(W[5])) XOR Rcon[1]\<close>, which differs from the value with
  \<open>Rcon[6/6 - 1] = Rcon[0]\<close>; and the last word \<open>W[4 * Nr + 3] = W[51]\<close> is never
  written and keeps the 0 the vector was created with.
\<close>

theorem Expansion_192_diverges:
  "Expansion past k 6 ! 6
     = Expansion past k 6 ! 0 XOR (SubWord (RotWord (Expansion past k 6 ! 5)) XOR Rcon ! 1)
   \<and> Expansion past k 6 ! 6
     \<noteq> Expansion past k 6 ! 0 XOR (SubWord (RotWord (Expansion past k 6 ! 5)) XOR Rcon ! 0)
   \<and> Expansion past k 6 ! 51 = 0"
proof -
  have 1: "Expansion past k 6 ! 6
     = Expansion past k 6 ! 0 XOR (SubWord (RotWord (Expansion past k 6 ! 5)) XOR Rcon ! 1)"
    using Expansion_words(3) [of 6 6 past k] by (simp add: Expansion_temp_def Rcon_at_def)
  have c: "a = b" if e: "x XOR a = x XOR b" for x a b :: word32
  proof -
    have "x XOR (x XOR a) = x XOR (x XOR b)" by (simp only: e)
    then show ?thesis by (simp add: xor.assoc [symmetric])
  qed
  have "Rcon ! 1 \<noteq> Rcon ! 0" by (simp add: Rcon_def)
  then have 2: "x XOR (y XOR Rcon ! 1) \<noteq> x XOR (y XOR Rcon ! 0)" for x y :: word32
    using c by blast
  have 3: "Expansion past k 6 ! 51 = 0"
    using Expansion_words(4) [of 6 past k] by simp
  show ?thesis unfolding 1 using 2 3 by simp
qed

section \<open>GHASH under the zero block\<close>

lemma zero_array_eq: "zero_array = Arr4 (Arr4 0 0 0 0) (Arr4 0 0 0 0) (Arr4 0 0 0 0) (Arr4 0 0 0 0)"
  by (simp add: zero_array_def build_def mk4_def)

lemma xor_arr_zero: "xor_arr Z zero_array = Z"
  by (rule state_array_eqI) (simp add: xor_arr_def cell_build zero_array_def)

lemma cell_zero: "cell zero_array i j = 0"
  by (simp add: zero_array_eq cell_def)

lemma put_zero: "put zero_array i j 0 = zero_array"
  unfolding put_def cell_zero by (simp add: zero_array_def)

lemma shift_cell_zero: "shift_cell p (0, zero_array) = (0, zero_array)"
  by (cases p) (simp add: shift_cell_def cell_zero put_zero)

lemma shift_pass_zero: "snd (fold shift_cell ps (0, zero_array)) = zero_array"
  by (induction ps) (simp_all add: shift_cell_zero)

lemma shift_r_zero: "shift_r (Suc 0) zero_array = zero_array"
  by (simp add: shift_pass_zero)

lemma mult_bit_zero: "mult_bit b (Z, zero_array) = (Z, zero_array)"
  by (simp add: mult_bit_def Let_def shift_r_zero xor_arr_zero cell_zero del: shift_r.simps)

lemma gcm_mult_zero: "gcm_mult X zero_array = zero_array"
proof -
  have 8: "(mult_bit b ^^ n) (Z, zero_array) = (Z, zero_array)" for b n Z
    by (induction n) (simp_all add: mult_bit_zero)
  have "fold (\<lambda>p ZV. case p of (col, row) \<Rightarrow> (mult_bit (cell X col row) ^^ 8) ZV) ps (Z, zero_array)
        = (Z, zero_array)" for ps Z
    by (induction ps) (auto simp add: 8)
  then show ?thesis by (simp add: gcm_mult_def)
qed

lemma GHASH_zero: "GHASH X zero_array = zero_array"
proof -
  have "fold (\<lambda>array Y. gcm_mult (xor_arr Y array) zero_array) as Y = (if as = [] then Y else zero_array)" for as Y
    by (induction as arbitrary: Y) (simp_all add: gcm_mult_zero)
  then show ?thesis by (simp add: GHASH_def)
qed

lemma hash_subkey_zero:
  assumes "Nr = 10 \<or> Nr = 12 \<or> Nr = 14"
  shows "hash_subkey past k Nr = Inr zero_array"
proof -
  from assms obtain w where w: "Schedule past k Nr = Inr w"
    using Schedule_valid by blast
  show ?thesis
    by (simp add: hash_subkey_def string_of_literal_def Cipher_valid [OF w] split_nil
        state_array_of_def zero_array_def)
qed

lemma Cipher_Inr:
  assumes "Nr = 10 \<or> Nr = 12 \<or> Nr = 14"
  shows "\<exists>c. Cipher past inp k Nr = Inr c"
proof -
  from assms obtain w where w: "Schedule past k Nr = Inr w"
    using Schedule_valid by blast
  show ?thesis by (simp add: Cipher_valid [OF w])
qed

lemma Enc_empty:
  assumes "Nr = 10 \<or> Nr = 12 \<or> Nr = 14"
  shows "\<exists>t. Enc past [] k Nr n = Inr t \<and> length t = 16"
proof -
  from assms obtain w where w: "Schedule past k Nr = Inr w"
    using Schedule_valid by blast
  obtain c where c: "Cipher past (unravel_array zero_array) k Nr = Inr c"
    using Cipher_Inr [OF assms] by blast
  show ?thesis
    by (simp add: Enc_def hash_subkey_zero [OF assms] state_of_string_def state_of_arrays_def w
        GHASH_zero Let_def GCTR_def split_nil c unravel_def)
qed

lemma Dec_empty:
  assumes "Nr = 10 \<or> Nr = 12 \<or> Nr = 14"
  shows "Dec past [] k Nr n = Inl BackOfEmpty"
proof -
  from assms obtain w where w: "Schedule past k Nr = Inr w"
    using Schedule_valid by blast
  show ?thesis
    by (simp add: Dec_def hash_subkey_zero [OF assms] state_of_string_def w Let_def split_nil)
qed


section \<open>Empty input\<close>

text \<open>
  C10, as stated, fails for the GCM calls and for an invalid round count: on an input
  that collapses to the empty string \<open>gcm::Enc\<close> still returns a tag block,
  \<open>gcm::Dec\<close> calls \<open>back()\<close> on an empty vector, and \<open>Cipher\<close> with eleven
  rounds raises before it looks at the input.
\<close>

theorem gcm_on_empty_input:
  "Enc 0 (string_of_literal [0, 65, 66]) (Arr4 1 2 3 4) 12 7 \<noteq> Inr []
   \<and> Dec 0 (string_of_literal [0, 65, 66]) (Arr4 1 2 3 4) 12 7 = Inl BackOfEmpty
   \<and> Cipher 0 [] (Arr4 1 2 3 4) 11 = Inl (InvalidKeySize 11)"
proof -
  obtain t where "Enc 0 [] (Arr4 1 2 3 4) 12 7 = Inr t" "length t = 16"
    using Enc_empty [of 12 0 "Arr4 1 2 3 4" 7] by auto
  then have "Enc 0 [] (Arr4 1 2 3 4) 12 7 \<noteq> Inr []" by auto
  then show ?thesis
    by (simp add: string_of_literal_def Dec_empty Cipher_def state_of_string_def Schedule_def)
qed


text \<open>
  C10, amended: for a valid round count, building a state from the empty string gives no
  block, a string literal that begins with a NUL byte reaches the callee as the empty
  string, and \<open>Cipher\<close>, \<open>InvCipher\<close> and \<open>Ctr\<close> of the empty string return
  the empty string.
\<close>

theorem empty_input_no_blocks:
  "Nr = 10 \<or> Nr = 12 \<or> Nr = 14 \<Longrightarrow>
     split_arrays [] 0 = [] \<and> string_of_literal (0 # rest) = []
     \<and> Cipher past [] k Nr = Inr [] \<and> InvCipher past [] k Nr = Inr []
     \<and> Ctr past [] k Nr n = Inr []"
  using Schedule_valid [of Nr past k]
  by (auto simp add: split_nil Cipher_valid InvCipher_valid string_of_literal_def Ctr_def
      state_of_string_def unravel_def)

theorem empty_input_no_blocks_witness:
  "((12::nat) = 10 \<or> (12::nat) = 12 \<or> (12::nat) = 14)
     \<and> split_arrays [] 0 = [] \<and> string_of_literal (0 # [65, 66]) = []
     \<and> Cipher 0 [] (Arr4 1 2 3 4) 12 = Inr [] \<and> InvCipher 0 [] (Arr4 1 2 3 4) 12 = Inr []
     \<and> Ctr 0 [] (Arr4 1 2 3 4) 12 7 = Inr []"
  using empty_input_no_blocks [of 12 "[65, 66]" 0 "Arr4 1 2 3 4" 7] by simp

section \<open>The generator of the key exchange\<close>

lemma raise_loop_0: "raise_loop ret v 0 md = ret"
  by (subst raise_loop.simps) simp

lemma raise_exp_2: "raise v 2 md = (((v mod md) * (v mod md)) mod md) mod md"
proof -
  have a: "(0::word64) < 2" "(0::word64) < 1" "(2::word64) AND 1 = 0" "drop_bit 1 (2::word64) = 1"
    "drop_bit 1 (1::word64) = 0" "(1::word64) AND 1 = 1"
    by (simp_all add: word_less_nat_alt)
  show ?thesis
    unfolding raise_def
    apply (subst raise_loop.simps)
    apply (simp only: a if_True if_False simp_thms)
    apply (subst raise_loop.simps)
    apply (simp only: a if_True if_False simp_thms)
    apply (simp add: raise_loop_0)
    done
qed

lemma raise_23: "raise 1 2 23 = 1" "raise 2 2 23 = 4" "raise 3 2 23 = 9"
  by (simp_all add: raise_exp_2)

lemma prime_is_11_23: "prime_is 11" "prime_is 23"
  by code_simp+

lemma generate_with_11: "generate_with 11 = Some (23, 11)"
  unfolding generate_with_def prime_next_def
  apply (subst next_loop.simps)
  apply (simp add: prime_is_11_23)
  done

lemma server_generator_23: "server_generator 23 11 = Some 9"
  unfolding server_generator_def
  apply (subst find_h.simps)
  apply (simp add: raise_23 word_le_nat_alt)
  apply (subst find_h.simps)
  apply (simp add: raise_23 word_le_nat_alt)
  done

text \<open>
  C7: \<open>prime::generate\<close> returns the pair (23, 11) when \<open>std::rand()\<close> yields 11.
  There \<open>(p - 1) / q = 2\<close>; \<open>h = 1\<close> gives 1 and \<open>h = 2\<close> gives 4, so the
  smallest \<open>h\<close> with a result above 1 is 2 and its power is 4.  The server path
  computes the generator 9, the power of \<open>h = 3\<close>: the loop's \<open>h++\<close> has already
  stepped past the \<open>h\<close> it tested.
\<close>

theorem server_generator_skips_h:
  "generate_with 11 = Some (23, 11)
   \<and> raise 1 ((23 - 1) div 11) 23 = 1
   \<and> raise 2 ((23 - 1) div 11) 23 = 4
   \<and> raise 3 ((23 - 1) div 11) 23 = 9
   \<and> server_generator 23 11 = Some 9"
  by (simp add: generate_with_11 raise_23 server_generator_23)

section \<open>The HMAC key\<close>

text \<open>
  C8: for the key whose first two words are \<open>0x0807060504030201\<close> and
  \<open>0x100F0E0D0C0B0A09\<close> and ten rounds, the sixteen bytes of the two words are
  1, 2, ..., 16, but the key handed to \<open>HMAC\<close> is made of the low nibbles of the words
  shifted right by 0, 1, ..., 7 bits.
\<close>

theorem key_bytes_are_shifted_nibbles:
  "key_bytes (Arr4 0x0807060504030201 0x100F0E0D0C0B0A09 0 0) 10
     = Inr [1, 0, 0, 0, 0, 0, 8, 4, 9, 4, 2, 1, 0, 0, 8, 4]
   \<and> active_prefix_bytes (Arr4 0x0807060504030201 0x100F0E0D0C0B0A09 0 0) 10
     = [1, 2, 3, 4, 5, 6, 7, 8, 9, 10, 11, 12, 13, 14, 15, 16]"
  by (simp add: key_bytes_def word_chars_def active_prefix_bytes_def word_bytes_def upt_lists)

section \<open>Receiving a value\<close>

text \<open>
  C9: \<open>recv_value\<close> never raises.  After a timeout \<open>recv_packet\<close> returns a packet
  tagged \<open>ERROR\<close> with a zeroed payload, and \<open>recv_value\<close> returns what the parser
  makes of that payload.
\<close>

theorem recv_value_returns_on_ERROR:
  "recv_packet PollTimeout = \<lparr>m = ERROR, data = replicate 1024 0\<rparr>
   \<and> recv_value parse PollTimeout = Inr (parse (replicate 1024 0))
   \<and> recv_value parse r = Inr (parse (take PACKET_SIZE (data (recv_packet r))))"
  by (simp add: recv_value_def recv_packet_def fresh_packet_def PACKET_SIZE_def Let_def)

section \<open>The key schedule of the example key\<close>

text \<open>
  The key \<open>2b7e1516 28aed2a6 abf71588 09cf4f3c\<close> of FIPS-197, Appendix A.1, read as two
  64-bit words, and the forty words \<open>Expansion\<close> computes for it (the loop stops before
  word 43, and no round of \<open>Cipher\<close> reads a word beyond 39).
\<close>

lemma RotWord_alt: "RotWord w = push_bit 8 w OR drop_bit 24 w"
  unfolding RotWord_def
proof (rule bit_word_eqI)
  fix n assume "n < LENGTH(32)"
  then have n: "n < 32" by simp
  show "bit (word_rotl 8 w) n = bit (push_bit 8 w OR drop_bit 24 w) n"
  proof (cases "n < 8")
    case True
    then have "(n + 24) mod 32 = n + 24" by simp
    then show ?thesis using True n by (simp add: bit_simps bit_word_rotl_iff add.commute)
  next
    case False
    then have "(n + 24) mod 32 = n - 8" using n by (simp add: mod_if)
    then show ?thesis using False n by (auto simp add: bit_simps bit_word_rotl_iff dest: bit_imp_le_length)
  qed
qed

lemmas schedule_ev = Expansion_temp_def Rcon_at_def Rcon_def SubWord_def RotWord_alt byte_of_def
  word_of_bytes_def SBox_table sbox_table_def

lemma schedule_S1:
    "Expansion past (Arr4 0xa6d2ae2816157e2b 0x3c4fcf098815f7ab 0 0) 4 ! 0 = 370507307"
    "Expansion past (Arr4 0xa6d2ae2816157e2b 0x3c4fcf098815f7ab 0 0) 4 ! 1 = 2798825000"
    "Expansion past (Arr4 0xa6d2ae2816157e2b 0x3c4fcf098815f7ab 0 0) 4 ! 2 = 2283141035"
    "Expansion past (Arr4 0xa6d2ae2816157e2b 0x3c4fcf098815f7ab 0 0) 4 ! 3 = 1011863305"
    "Expansion past (Arr4 0xa6d2ae2816157e2b 0x3c4fcf098815f7ab 0 0) 4 ! 4 = 2426372032"
    "Expansion past (Arr4 0xa6d2ae2816157e2b 0x3c4fcf098815f7ab 0 0) 4 ! 5 = 911069672"
    "Expansion past (Arr4 0xa6d2ae2816157e2b 0x3c4fcf098815f7ab 0 0) 4 ! 6 = 3193448003"
    "Expansion past (Arr4 0xa6d2ae2816157e2b 0x3c4fcf098815f7ab 0 0) 4 ! 7 = 2182605130"
    "Expansion past (Arr4 0xa6d2ae2816157e2b 0x3c4fcf098815f7ab 0 0) 4 ! 8 = 1686219219"
    "Expansion past (Arr4 0xa6d2ae2816157e2b 0x3c4fcf098815f7ab 0 0) 4 ! 9 = 1389131835"
    "Expansion past (Arr4 0xa6d2ae2816157e2b 0x3c4fcf098815f7ab 0 0) 4 ! 10 = 3969146488"
    "Expansion past (Arr4 0xa6d2ae2816157e2b 0x3c4fcf098815f7ab 0 0) 4 ! 11 = 1854125874"
    "Expansion past (Arr4 0xa6d2ae2816157e2b 0x3c4fcf098815f7ab 0 0) 4 ! 12 = 2150140492"
    "Expansion past (Arr4 0xa6d2ae2816157e2b 0x3c4fcf098815f7ab 0 0) 4 ! 13 = 3538219639"
    "Expansion past (Arr4 0xa6d2ae2816157e2b 0x3c4fcf098815f7ab 0 0) 4 ! 14 = 1047571471"
    "Expansion past (Arr4 0xa6d2ae2816157e2b 0x3c4fcf098815f7ab 0 0) 4 ! 15 = 1358109501"
    "Expansion past (Arr4 0xa6d2ae2816157e2b 0x3c4fcf098815f7ab 0 0) 4 ! 16 = 2642914591"
    "Expansion past (Arr4 0xa6d2ae2816157e2b 0x3c4fcf098815f7ab 0 0) 4 ! 17 = 1331912552"
    "Expansion past (Arr4 0xa6d2ae2816157e2b 0x3c4fcf098815f7ab 0 0) 4 ! 18 = 1897132903"
    "Expansion past (Arr4 0xa6d2ae2816157e2b 0x3c4fcf098815f7ab 0 0) 4 ! 19 = 568387674"
    "Expansion past (Arr4 0xa6d2ae2816157e2b 0x3c4fcf098815f7ab 0 0) 4 ! 20 = 1545343970"
    "Expansion past (Arr4 0xa6d2ae2816157e2b 0x3c4fcf098815f7ab 0 0) 4 ! 21 = 327109770"
    "Expansion past (Arr4 0xa6d2ae2816157e2b 0x3c4fcf098815f7ab 0 0) 4 ! 22 = 1651294189"
    "Expansion past (Arr4 0xa6d2ae2816157e2b 0x3c4fcf098815f7ab 0 0) 4 ! 23 = 1133270967"
    "Expansion past (Arr4 0xa6d2ae2816157e2b 0x3c4fcf098815f7ab 0 0) 4 ! 24 = 2017966840"
    "Expansion past (Arr4 0xa6d2ae2816157e2b 0x3c4fcf098815f7ab 0 0) 4 ! 25 = 1798895218"
    "Expansion past (Arr4 0xa6d2ae2816157e2b 0x3c4fcf098815f7ab 0 0) 4 ! 26 = 156518815"
    "Expansion past (Arr4 0xa6d2ae2816157e2b 0x3c4fcf098815f7ab 0 0) 4 ! 27 = 1255677480"
    "Expansion past (Arr4 0xa6d2ae2816157e2b 0x3c4fcf098815f7ab 0 0) 4 ! 28 = 2570423854"
    "Expansion past (Arr4 0xa6d2ae2816157e2b 0x3c4fcf098815f7ab 0 0) 4 ! 29 = 4060969052"
    "Expansion past (Arr4 0xa6d2ae2816157e2b 0x3c4fcf098815f7ab 0 0) 4 ! 30 = 4216926659"
    "Expansion past (Arr4 0xa6d2ae2816157e2b 0x3c4fcf098815f7ab 0 0) 4 ! 31 = 2978033643"
    "Expansion past (Arr4 0xa6d2ae2816157e2b 0x3c4fcf098815f7ab 0 0) 4 ! 32 = 2384488422"
    "Expansion past (Arr4 0xa6d2ae2816157e2b 0x3c4fcf098815f7ab 0 0) 4 ! 33 = 2083332026"
    "Expansion past (Arr4 0xa6d2ae2816157e2b 0x3c4fcf098815f7ab 0 0) 4 ! 34 = 2272538233"
    "Expansion past (Arr4 0xa6d2ae2816157e2b 0x3c4fcf098815f7ab 0 0) 4 ! 35 = 922026386"
    "Expansion past (Arr4 0xa6d2ae2816157e2b 0x3c4fcf098815f7ab 0 0) 4 ! 36 = 1583098083"
    "Expansion past (Arr4 0xa6d2ae2816157e2b 0x3c4fcf098815f7ab 0 0) 4 ! 37 = 577845081"
    "Expansion past (Arr4 0xa6d2ae2816157e2b 0x3c4fcf098815f7ab 0 0) 4 ! 38 = 2768574752"
    "Expansion past (Arr4 0xa6d2ae2816157e2b 0x3c4fcf098815f7ab 0 0) 4 ! 39 = 2481985714"
proof -
  let ?K = "Arr4 0xa6d2ae2816157e2b 0x3c4fcf098815f7ab 0 0"
  let ?W = "Expansion past ?K 4"
  have w0: "?W ! 0 = 370507307"
    using Expansion_words(2) [of 4 0 past "?K"] by (simp add: key_words_def upt_lists)
  have w1: "?W ! 1 = 2798825000"
    using Expansion_words(2) [of 4 1 past "?K"] by (simp add: key_words_def upt_lists)
  have w1s: "?W ! Suc 0 = 2798825000" using w1 by simp
  have w2: "?W ! 2 = 2283141035"
    using Expansion_words(2) [of 4 2 past "?K"] by (simp add: key_words_def upt_lists)
  have w3: "?W ! 3 = 1011863305"
    using Expansion_words(2) [of 4 3 past "?K"] by (simp add: key_words_def upt_lists)
  have w4: "?W ! 4 = 2426372032"
    using Expansion_words(3) [of 4 4 past "?K"] by (simp add: w3 w0 schedule_ev)
  have w5: "?W ! 5 = 911069672"
    using Expansion_words(3) [of 4 5 past "?K"] by (simp add: w4 w1s schedule_ev)
  have w6: "?W ! 6 = 3193448003"
    using Expansion_words(3) [of 4 6 past "?K"] by (simp add: w5 w2 schedule_ev)
  have w7: "?W ! 7 = 2182605130"
    using Expansion_words(3) [of 4 7 past "?K"] by (simp add: w6 w3 schedule_ev)
  have w8: "?W ! 8 = 1686219219"
    using Expansion_words(3) [of 4 8 past "?K"] by (simp add: w7 w4 schedule_ev)
  have w9: "?W ! 9 = 1389131835"
    using Expansion_words(3) [of 4 9 past "?K"] by (simp add: w8 w5 schedule_ev)
  have w10: "?W ! 10 = 3969146488"
    using Expansion_words(3) [of 4 10 past "?K"] by (simp add: w9 w6 schedule_ev)
  have w11: "?W ! 11 = 1854125874"
    using Expansion_words(3) [of 4 11 past "?K"] by (simp add: w10 w7 schedule_ev)
  have w12: "?W ! 12 = 2150140492"
    using Expansion_words(3) [of 4 12 past "?K"] by (simp add: w11 w8 schedule_ev)
  have w13: "?W ! 13 = 3538219639"
    using Expansion_words(3) [of 4 13 past "?K"] by (simp add: w12 w9 schedule_ev)
  have w14: "?W ! 14 = 1047571471"
    using Expansion_words(3) [of 4 14 past "?K"] by (simp add: w13 w10 schedule_ev)
  have w15: "?W ! 15 = 1358109501"
    using Expansion_words(3) [of 4 15 past "?K"] by (simp add: w14 w11 schedule_ev)
  have w16: "?W ! 16 = 2642914591"
    using Expansion_words(3) [of 4 16 past "?K"] by (simp add: w15 w12 schedule_ev)
  have w17: "?W ! 17 = 1331912552"
    using Expansion_words(3) [of 4 17 past "?K"] by (simp add: w16 w13 schedule_ev)
  have w18: "?W ! 18 = 1897132903"
    using Expansion_words(3) [of 4 18 past "?K"] by (simp add: w17 w14 schedule_ev)
  have w19: "?W ! 19 = 568387674"
    using Expansion_words(3) [of 4 19 past "?K"] by (simp add: w18 w15 schedule_ev)
  have w20: "?W ! 20 = 1545343970"
    using Expansion_words(3) [of 4 20 past "?K"] by (simp add: w19 w16 schedule_ev)
  have w21: "?W ! 21 = 327109770"
    using Expansion_words(3) [of 4 21 past "?K"] by (simp add: w20 w17 schedule_ev)
  have w22: "?W ! 22 = 1651294189"
    using Expansion_words(3) [of 4 22 past "?K"] by (simp add: w21 w18 schedule_ev)
  have w23: "?W ! 23 = 1133270967"
    using Expansion_words(3) [of 4 23 past "?K"] by (simp add: w22 w19 schedule_ev)
  have w24: "?W ! 24 = 2017966840"
    using Expansion_words(3) [of 4 24 past "?K"] by (simp add: w23 w20 schedule_ev)
  have w25: "?W ! 25 = 1798895218"
    using Expansion_words(3) [of 4 25 past "?K"] by (simp add: w24 w21 schedule_ev)
  have w26: "?W ! 26 = 156518815"
    using Expansion_words(3) [of 4 26 past "?K"] by (simp add: w25 w22 schedule_ev)
  have w27: "?W ! 27 = 1255677480"
    using Expansion_words(3) [of 4 27 past "?K"] by (simp add: w26 w23 schedule_ev)
  have w28: "?W ! 28 = 2570423854"
    using Expansion_words(3) [of 4 28 past "?K"] by (simp add: w27 w24 schedule_ev)
  have w29: "?W ! 29 = 4060969052"
    using Expansion_words(3) [of 4 29 past "?K"] by (simp add: w28 w25 schedule_ev)
  have w30: "?W ! 30 = 4216926659"
    using Expansion_words(3) [of 4 30 past "?K"] by (simp add: w29 w26 schedule_ev)
  have w31: "?W ! 31 = 2978033643"
    using Expansion_words(3) [of 4 31 past "?K"] by (simp add: w30 w27 schedule_ev)
  have w32: "?W ! 32 = 2384488422"
    using Expansion_words(3) [of 4 32 past "?K"] by (simp add: w31 w28 schedule_ev)
  have w33: "?W ! 33 = 2083332026"
    using Expansion_words(3) [of 4 33 past "?K"] by (simp add: w32 w29 schedule_ev)
  have w34: "?W ! 34 = 2272538233"
    using Expansion_words(3) [of 4 34 past "?K"] by (simp add: w33 w30 schedule_ev)
  have w35: "?W ! 35 = 922026386"
    using Expansion_words(3) [of 4 35 past "?K"] by (simp add: w34 w31 schedule_ev)
  have w36: "?W ! 36 = 1583098083"
    using Expansion_words(3) [of 4 36 past "?K"] by (simp add: w35 w32 schedule_ev)
  have w37: "?W ! 37 = 577845081"
    using Expansion_words(3) [of 4 37 past "?K"] by (simp add: w36 w33 schedule_ev)
  have w38: "?W ! 38 = 2768574752"
    using Expansion_words(3) [of 4 38 past "?K"] by (simp add: w37 w34 schedule_ev)
  have w39: "?W ! 39 = 2481985714"
    using Expansion_words(3) [of 4 39 past "?K"] by (simp add: w38 w35 schedule_ev)
  show
    "Expansion past (Arr4 0xa6d2ae2816157e2b 0x3c4fcf098815f7ab 0 0) 4 ! 0 = 370507307"
    "Expansion past (Arr4 0xa6d2ae2816157e2b 0x3c4fcf098815f7ab 0 0) 4 ! 1 = 2798825000"
    "Expansion past (Arr4 0xa6d2ae2816157e2b 0x3c4fcf098815f7ab 0 0) 4 ! 2 = 2283141035"
    "Expansion past (Arr4 0xa6d2ae2816157e2b 0x3c4fcf098815f7ab 0 0) 4 ! 3 = 1011863305"
    "Expansion past (Arr4 0xa6d2ae2816157e2b 0x3c4fcf098815f7ab 0 0) 4 ! 4 = 2426372032"
    "Expansion past (Arr4 0xa6d2ae2816157e2b 0x3c4fcf098815f7ab 0 0) 4 ! 5 = 911069672"
    "Expansion past (Arr4 0xa6d2ae2816157e2b 0x3c4fcf098815f7ab 0 0) 4 ! 6 = 3193448003"
    "Expansion past (Arr4 0xa6d2ae2816157e2b 0x3c4fcf098815f7ab 0 0) 4 ! 7 = 2182605130"
    "Expansion past (Arr4 0xa6d2ae2816157e2b 0x3c4fcf098815f7ab 0 0) 4 ! 8 = 1686219219"
    "Expansion past (Arr4 0xa6d2ae2816157e2b 0x3c4fcf098815f7ab 0 0) 4 ! 9 = 1389131835"
    "Expansion past (Arr4 0xa6d2ae2816157e2b 0x3c4fcf098815f7ab 0 0) 4 ! 10 = 3969146488"
    "Expansion past (Arr4 0xa6d2ae2816157e2b 0x3c4fcf098815f7ab 0 0) 4 ! 11 = 1854125874"
    "Expansion past (Arr4 0xa6d2ae2816157e2b 0x3c4fcf098815f7ab 0 0) 4 ! 12 = 2150140492"
    "Expansion past (Arr4 0xa6d2ae2816157e2b 0x3c4fcf098815f7ab 0 0) 4 ! 13 = 3538219639"
    "Expansion past (Arr4 0xa6d2ae2816157e2b 0x3c4fcf098815f7ab 0 0) 4 ! 14 = 1047571471"
    "Expansion past (Arr4 0xa6d2ae2816157e2b 0x3c4fcf098815f7ab 0 0) 4 ! 15 = 1358109501"
    "Expansion past (Arr4 0xa6d2ae2816157e2b 0x3c4fcf098815f7ab 0 0) 4 ! 16 = 2642914591"
    "Expansion past (Arr4 0xa6d2ae2816157e2b 0x3c4fcf098815f7ab 0 0) 4 ! 17 = 1331912552"
    "Expansion past (Arr4 0xa6d2ae2816157e2b 0x3c4fcf098815f7ab 0 0) 4 ! 18 = 1897132903"
    "Expansion past (Arr4 0xa6d2ae2816157e2b 0x3c4fcf098815f7ab 0 0) 4 ! 19 = 568387674"
    "Expansion past (Arr4 0xa6d2ae2816157e2b 0x3c4fcf098815f7ab 0 0) 4 ! 20 = 1545343970"
    "Expansion past (Arr4 0xa6d2ae2816157e2b 0x3c4fcf098815f7ab 0 0) 4 ! 21 = 327109770"
    "Expansion past (Arr4 0xa6d2ae2816157e2b 0x3c4fcf098815f7ab 0 0) 4 ! 22 = 1651294189"
    "Expansion past (Arr4 0xa6d2ae2816157e2b 0x3c4fcf098815f7ab 0 0) 4 ! 23 = 1133270967"
    "Expansion past (Arr4 0xa6d2ae2816157e2b 0x3c4fcf098815f7ab 0 0) 4 ! 24 = 2017966840"
    "Expansion past (Arr4 0xa6d2ae2816157e2b 0x3c4fcf098815f7ab 0 0) 4 ! 25 = 1798895218"
    "Expansion past (Arr4 0xa6d2ae2816157e2b 0x3c4fcf098815f7ab 0 0) 4 ! 26 = 156518815"
    "Expansion past (Arr4 0xa6d2ae2816157e2b 0x3c4fcf098815f7ab 0 0) 4 ! 27 = 1255677480"
    "Expansion past (Arr4 0xa6d2ae2816157e2b 0x3c4fcf098815f7ab 0 0) 4 ! 28 = 2570423854"
    "Expansion past (Arr4 0xa6d2ae2816157e2b 0x3c4fcf098815f7ab 0 0) 4 ! 29 = 4060969052"
    "Expansion past (Arr4 0xa6d2ae2816157e2b 0x3c4fcf098815f7ab 0 0) 4 ! 30 = 4216926659"
    "Expansion past (Arr4 0xa6d2ae2816157e2b 0x3c4fcf098815f7ab 0 0) 4 ! 31 = 2978033643"
    "Expansion past (Arr4 0xa6d2ae2816157e2b 0x3c4fcf098815f7ab 0 0) 4 ! 32 = 2384488422"
    "Expansion past (Arr4 0xa6d2ae2816157e2b 0x3c4fcf098815f7ab 0 0) 4 ! 33 = 2083332026"
    "Expansion past (Arr4 0xa6d2ae2816157e2b 0x3c4fcf098815f7ab 0 0) 4 ! 34 = 2272538233"
    "Expansion past (Arr4 0xa6d2ae2816157e2b 0x3c4fcf098815f7ab 0 0) 4 ! 35 = 922026386"
    "Expansion past (Arr4 0xa6d2ae2816157e2b 0x3c4fcf098815f7ab 0 0) 4 ! 36 = 1583098083"
    "Expansion past (Arr4 0xa6d2ae2816157e2b 0x3c4fcf098815f7ab 0 0) 4 ! 37 = 577845081"
    "Expansion past (Arr4 0xa6d2ae2816157e2b 0x3c4fcf098815f7ab 0 0) 4 ! 38 = 2768574752"
    "Expansion past (Arr4 0xa6d2ae2816157e2b 0x3c4fcf098815f7ab 0 0) 4 ! 39 = 2481985714"
    by (rule w0 w1 w2 w3 w4 w5 w6 w7 w8 w9 w10 w11 w12 w13 w14 w15 w16 w17 w18 w19 w20 w21 w22 w23 w24 w25 w26 w27 w28 w29 w30 w31 w32 w33 w34 w35 w36 w37 w38 w39)+
qed


lemma schedule_S1_Suc: "Expansion past (Arr4 0xa6d2ae2816157e2b 0x3c4fcf098815f7ab 0 0) 4 ! Suc 0 = 2798825000"
  using schedule_S1(2) [of past] by simp

section \<open>Single blocks under the example key\<close>

lemma mult_2_3: "mult 2 b = xtime b" "mult 3 b = xtime b XOR b"
proof -
  show "mult 2 b = xtime b" by (simp add: mult_commute [of 2 b] mult_pow2)
  have "mult b 3 = b XOR xtime b" by (simp add: mult_closed)
  then show "mult 3 b = xtime b XOR b" by (simp add: mult_commute [of 3 b] xor.commute)
qed

lemma upt_9: "[0..<9] = [0, 1, 2, 3, 4, 5, 6, 7, 8]"
  by code_simp

lemmas block_struct = AddRoundKey_array_def SubBytes_array_def ShiftRows_array_def
  MixColumns_array_def build_def mk4_def cell_def

lemmas block_ev = byte_of_def SBox_table sbox_table_def mult_2_3 xtime_numeral

lemma S1_start:
  "AddRoundKey_array 0 (Expansion past (Arr4 0xa6d2ae2816157e2b 0x3c4fcf098815f7ab 0 0) 4) (state_array_at [107, 193, 190, 226, 46, 64, 159, 150, 233, 61, 126, 17, 115, 147, 23, 42] 0)
   = (Arr4 (Arr4 64 233 21 235) (Arr4 80 238 104 89) (Arr4 252 239 107 94) (Arr4 101 53 159 22))"
  by (simp add: AddRoundKey_array_def state_array_at_def build_def mk4_def cell_def byte_of_def schedule_S1 schedule_S1_Suc)

lemma S1_round1:
  "AddRoundKey_array (Suc 0) (Expansion past (Arr4 0xa6d2ae2816157e2b 0x3c4fcf098815f7ab 0 0) 4) (MixColumns_array (ShiftRows_array (SubBytes_array
     (Arr4 (Arr4 64 233 21 235) (Arr4 80 238 104 89) (Arr4 252 239 107 94) (Arr4 101 53 159 22)))))
   = (Arr4 (Arr4 146 119 85 136) (Arr4 145 184 39 209) (Arr4 215 234 138 158) (Arr4 53 208 143 190))"
  apply (simp add: block_struct)
  apply (simp add: block_ev schedule_S1 schedule_S1_Suc)
  done

lemma S1_round2:
  "AddRoundKey_array (Suc (Suc 0)) (Expansion past (Arr4 0xa6d2ae2816157e2b 0x3c4fcf098815f7ab 0 0) 4) (MixColumns_array (ShiftRows_array (SubBytes_array
     (Arr4 (Arr4 146 119 85 136) (Arr4 145 184 39 209) (Arr4 215 234 138 158) (Arr4 53 208 143 190)))))
   = (Arr4 (Arr4 41 128 78 182) (Arr4 149 189 233 72) (Arr4 207 3 75 97) (Arr4 144 113 17 224))"
  apply (simp add: block_struct)
  apply (simp add: block_ev schedule_S1 schedule_S1_Suc)
  done

lemma S1_round3:
  "AddRoundKey_array (3) (Expansion past (Arr4 0xa6d2ae2816157e2b 0x3c4fcf098815f7ab 0 0) 4) (MixColumns_array (ShiftRows_array (SubBytes_array
     (Arr4 (Arr4 41 128 78 182) (Arr4 149 189 233 72) (Arr4 207 3 75 97) (Arr4 144 113 17 224)))))
   = (Arr4 (Arr4 193 9 149 217) (Arr4 159 253 48 0) (Arr4 164 16 241 94) (Arr4 253 254 133 230))"
  apply (simp add: block_struct)
  apply (simp add: block_ev schedule_S1 schedule_S1_Suc)
  done

lemma S1_round4:
  "AddRoundKey_array (4) (Expansion past (Arr4 0xa6d2ae2816157e2b 0x3c4fcf098815f7ab 0 0) 4) (MixColumns_array (ShiftRows_array (SubBytes_array
     (Arr4 (Arr4 193 9 149 217) (Arr4 159 253 48 0) (Arr4 164 16 241 94) (Arr4 253 254 133 230)))))
   = (Arr4 (Arr4 60 206 155 32) (Arr4 231 156 136 169) (Arr4 138 90 16 108) (Arr4 106 77 196 104))"
  apply (simp add: block_struct)
  apply (simp add: block_ev schedule_S1 schedule_S1_Suc)
  done

lemma S1_round5:
  "AddRoundKey_array (5) (Expansion past (Arr4 0xa6d2ae2816157e2b 0x3c4fcf098815f7ab 0 0) 4) (MixColumns_array (ShiftRows_array (SubBytes_array
     (Arr4 (Arr4 60 206 155 32) (Arr4 231 156 136 169) (Arr4 138 90 16 108) (Arr4 106 77 196 104)))))
   = (Arr4 (Arr4 217 198 152 15) (Arr4 82 44 111 39) (Arr4 25 51 183 68) (Arr4 74 27 136 170))"
  apply (simp add: block_struct)
  apply (simp add: block_ev schedule_S1 schedule_S1_Suc)
  done

lemma S1_round6:
  "AddRoundKey_array (6) (Expansion past (Arr4 0xa6d2ae2816157e2b 0x3c4fcf098815f7ab 0 0) 4) (MixColumns_array (ShiftRows_array (SubBytes_array
     (Arr4 (Arr4 217 198 152 15) (Arr4 82 44 111 39) (Arr4 25 51 183 68) (Arr4 74 27 136 170)))))
   = (Arr4 (Arr4 4 233 125 236) (Arr4 86 74 131 245) (Arr4 148 175 236 213) (Arr4 187 54 13 1))"
  apply (simp add: block_struct)
  apply (simp add: block_ev schedule_S1 schedule_S1_Suc)
  done

lemma S1_round7:
  "AddRoundKey_array (7) (Expansion past (Arr4 0xa6d2ae2816157e2b 0x3c4fcf098815f7ab 0 0) 4) (MixColumns_array (ShiftRows_array (SubBytes_array
     (Arr4 (Arr4 4 233 125 236) (Arr4 86 74 131 245) (Arr4 148 175 236 213) (Arr4 187 54 13 1)))))
   = (Arr4 (Arr4 2 44 228 6) (Arr4 101 151 5 206) (Arr4 103 217 170 202) (Arr4 155 8 201 96))"
  apply (simp add: block_struct)
  apply (simp add: block_ev schedule_S1 schedule_S1_Suc)
  done

lemma S1_round8:
  "AddRoundKey_array (8) (Expansion past (Arr4 0xa6d2ae2816157e2b 0x3c4fcf098815f7ab 0 0) 4) (MixColumns_array (ShiftRows_array (SubBytes_array
     (Arr4 (Arr4 2 44 228 6) (Arr4 101 151 5 206) (Arr4 103 217 170 202) (Arr4 155 8 201 96)))))
   = (Arr4 (Arr4 247 249 174 148) (Arr4 16 43 70 224) (Arr4 131 248 149 53) (Arr4 42 67 168 248))"
  apply (simp add: block_struct)
  apply (simp add: block_ev schedule_S1 schedule_S1_Suc)
  done

lemma S1_round9:
  "AddRoundKey_array (9) (Expansion past (Arr4 0xa6d2ae2816157e2b 0x3c4fcf098815f7ab 0 0) 4) (MixColumns_array (ShiftRows_array (SubBytes_array
     (Arr4 (Arr4 247 249 174 148) (Arr4 16 43 70 224) (Arr4 131 248 149 53) (Arr4 42 67 168 248)))))
   = (Arr4 (Arr4 80 247 46 83) (Arr4 132 0 107 154) (Arr4 180 127 24 248) (Arr4 243 150 204 83))"
  apply (simp add: block_struct)
  apply (simp add: block_ev schedule_S1 schedule_S1_Suc)
  done

lemma S1_final:
  "AddRoundKey_array 9 (Expansion past (Arr4 0xa6d2ae2816157e2b 0x3c4fcf098815f7ab 0 0) 4) (ShiftRows_array (SubBytes_array
     (Arr4 (Arr4 80 247 46 83) (Arr4 132 0 107 154) (Arr4 180 127 24 248) (Arr4 243 150 204 83))))
   = (Arr4 (Arr4 176 58 141 95) (Arr4 119 229 82 245) (Arr4 209 225 52 72) (Arr4 83 74 218 210))"
  apply (simp add: block_struct)
  apply (simp add: block_ev schedule_S1 schedule_S1_Suc)
  done

lemma S1_block:
  "Cipher_block 10 (Expansion past (Arr4 0xa6d2ae2816157e2b 0x3c4fcf098815f7ab 0 0) 4) (state_array_at [107, 193, 190, 226, 46, 64, 159, 150, 233, 61, 126, 17, 115, 147, 23, 42] 0)
   = (Arr4 (Arr4 176 58 141 95) (Arr4 119 229 82 245) (Arr4 209 225 52 72) (Arr4 83 74 218 210))"
  unfolding Cipher_block_def
  by (simp add: upt_9 S1_start S1_round1 S1_round2 S1_round3 S1_round4 S1_round5 S1_round6 S1_round7 S1_round8 S1_round9 S1_final)

lemma S1_Cipher:
  "Cipher past [107, 193, 190, 226, 46, 64, 159, 150, 233, 61, 126, 17, 115, 147, 23, 42] (Arr4 0xa6d2ae2816157e2b 0x3c4fcf098815f7ab 0 0) 10
   = Inr [176, 58, 141, 95, 119, 229, 82, 245, 209, 225, 52, 72, 83, 74, 218, 210]"
proof -
  have w: "Schedule past (Arr4 0xa6d2ae2816157e2b 0x3c4fcf098815f7ab 0 0) 10 = Inr (Expansion past (Arr4 0xa6d2ae2816157e2b 0x3c4fcf098815f7ab 0 0) 4)"
    by (simp add: Schedule_def)
  have s: "split_arrays [107, 193, 190, 226, 46, 64, 159, 150, 233, 61, 126, 17, 115, 147, 23, 42] 0 = [state_array_at [107, 193, 190, 226, 46, 64, 159, 150, 233, 61, 126, 17, 115, 147, 23, 42] 0]"
    by (simp add: split_arrays_step split_nil)
  show ?thesis
    unfolding Cipher_valid [OF w] s
    by (simp add: S1_block unravel_array_cells cell_def)
qed


lemma Z_start:
  "AddRoundKey_array 0 (Expansion past (Arr4 0xa6d2ae2816157e2b 0x3c4fcf098815f7ab 0 0) 4) (state_array_at [0, 0, 0, 0, 0, 0, 0, 0, 0, 0, 0, 0, 0, 0, 0, 0] 0)
   = (Arr4 (Arr4 43 40 171 9) (Arr4 126 174 247 207) (Arr4 21 210 21 79) (Arr4 22 166 136 60))"
  by (simp add: AddRoundKey_array_def state_array_at_def build_def mk4_def cell_def byte_of_def schedule_S1 schedule_S1_Suc)

lemma Z_round1:
  "AddRoundKey_array (Suc 0) (Expansion past (Arr4 0xa6d2ae2816157e2b 0x3c4fcf098815f7ab 0 0) 4) (MixColumns_array (ShiftRows_array (SubBytes_array
     (Arr4 (Arr4 43 40 171 9) (Arr4 126 174 247 207) (Arr4 21 210 21 79) (Arr4 22 166 136 60)))))
   = (Arr4 (Arr4 188 202 194 50) (Arr4 131 5 240 148) (Arr4 169 112 100 181) (Arr4 174 37 138 4))"
  apply (simp add: block_struct)
  apply (simp add: block_ev schedule_S1 schedule_S1_Suc)
  done

lemma Z_round2:
  "AddRoundKey_array (Suc (Suc 0)) (Expansion past (Arr4 0xa6d2ae2816157e2b 0x3c4fcf098815f7ab 0 0) 4) (MixColumns_array (ShiftRows_array (SubBytes_array
     (Arr4 (Arr4 188 202 194 50) (Arr4 131 5 240 148) (Arr4 169 112 100 181) (Arr4 174 37 138 4)))))
   = (Arr4 (Arr4 21 191 253 74) (Arr4 196 151 122 241) (Arr4 122 44 84 179) (Arr4 114 4 27 16))"
  apply (simp add: block_struct)
  apply (simp add: block_ev schedule_S1 schedule_S1_Suc)
  done

lemma Z_round3:
  "AddRoundKey_array (3) (Expansion past (Arr4 0xa6d2ae2816157e2b 0x3c4fcf098815f7ab 0 0) 4) (MixColumns_array (ShiftRows_array (SubBytes_array
     (Arr4 (Arr4 21 191 253 74) (Arr4 196 151 122 241) (Arr4 122 44 84 179) (Arr4 114 4 27 16)))))
   = (Arr4 (Arr4 151 143 219 241) (Arr4 88 48 229 86) (Arr4 127 156 8 121) (Arr4 175 154 110 152))"
  apply (simp add: block_struct)
  apply (simp add: block_ev schedule_S1 schedule_S1_Suc)
  done

lemma Z_round4:
  "AddRoundKey_array (4) (Expansion past (Arr4 0xa6d2ae2816157e2b 0x3c4fcf098815f7ab 0 0) 4) (MixColumns_array (ShiftRows_array (SubBytes_array
     (Arr4 (Arr4 151 143 219 241) (Arr4 88 48 229 86) (Arr4 127 156 8 121) (Arr4 175 154 110 152)))))
   = (Arr4 (Arr4 110 254 65 97) (Arr4 62 137 154 78) (Arr4 227 187 216 245) (Arr4 149 22 19 119))"
  apply (simp add: block_struct)
  apply (simp add: block_ev schedule_S1 schedule_S1_Suc)
  done

lemma Z_round5:
  "AddRoundKey_array (5) (Expansion past (Arr4 0xa6d2ae2816157e2b 0x3c4fcf098815f7ab 0 0) 4) (MixColumns_array (ShiftRows_array (SubBytes_array
     (Arr4 (Arr4 110 254 65 97) (Arr4 62 137 154 78) (Arr4 227 187 216 245) (Arr4 149 22 19 119)))))
   = (Arr4 (Arr4 161 22 19 58) (Arr4 219 89 55 200) (Arr4 91 81 86 37) (Arr4 128 97 169 233))"
  apply (simp add: block_struct)
  apply (simp add: block_ev schedule_S1 schedule_S1_Suc)
  done

lemma Z_round6:
  "AddRoundKey_array (6) (Expansion past (Arr4 0xa6d2ae2816157e2b 0x3c4fcf098815f7ab 0 0) 4) (MixColumns_array (ShiftRows_array (SubBytes_array
     (Arr4 (Arr4 161 22 19 58) (Arr4 219 89 55 200) (Arr4 91 81 86 37) (Arr4 128 97 169 233)))))
   = (Arr4 (Arr4 117 27 61 56) (Arr4 232 24 7 215) (Arr4 138 171 91 202) (Arr4 149 162 237 165))"
  apply (simp add: block_struct)
  apply (simp add: block_ev schedule_S1 schedule_S1_Suc)
  done

lemma Z_round7:
  "AddRoundKey_array (7) (Expansion past (Arr4 0xa6d2ae2816157e2b 0x3c4fcf098815f7ab 0 0) 4) (MixColumns_array (ShiftRows_array (SubBytes_array
     (Arr4 (Arr4 117 27 61 56) (Arr4 232 24 7 215) (Arr4 138 171 91 202) (Arr4 149 162 237 165)))))
   = (Arr4 (Arr4 220 205 139 207) (Arr4 87 223 107 160) (Arr4 174 96 65 2) (Arr4 150 189 115 77))"
  apply (simp add: block_struct)
  apply (simp add: block_ev schedule_S1 schedule_S1_Suc)
  done

lemma Z_round8:
  "AddRoundKey_array (8) (Expansion past (Arr4 0xa6d2ae2816157e2b 0x3c4fcf098815f7ab 0 0) 4) (MixColumns_array (ShiftRows_array (SubBytes_array
     (Arr4 (Arr4 220 205 139 207) (Arr4 87 223 107 160) (Arr4 174 96 65 2) (Arr4 150 189 115 77)))))
   = (Arr4 (Arr4 40 102 66 195) (Arr4 191 255 37 188) (Arr4 160 154 171 94) (Arr4 97 123 205 177))"
  apply (simp add: block_struct)
  apply (simp add: block_ev schedule_S1 schedule_S1_Suc)
  done

lemma Z_round9:
  "AddRoundKey_array (9) (Expansion past (Arr4 0xa6d2ae2816157e2b 0x3c4fcf098815f7ab 0 0) 4) (MixColumns_array (ShiftRows_array (SubBytes_array
     (Arr4 (Arr4 40 102 66 195) (Arr4 191 255 37 188) (Arr4 160 154 171 94) (Arr4 97 123 205 177)))))
   = (Arr4 (Arr4 27 47 133 17) (Arr4 120 166 186 89) (Arr4 173 194 51 12) (Arr4 169 178 239 5))"
  apply (simp add: block_struct)
  apply (simp add: block_ev schedule_S1 schedule_S1_Suc)
  done

lemma Z_final:
  "AddRoundKey_array 9 (Expansion past (Arr4 0xa6d2ae2816157e2b 0x3c4fcf098815f7ab 0 0) 4) (ShiftRows_array (SubBytes_array
     (Arr4 (Arr4 27 47 133 17) (Arr4 120 166 186 89) (Arr4 173 194 51 12) (Arr4 169 178 239 5))))
   = (Arr4 (Arr4 76 125 227 217) (Arr4 148 18 198 154) (Arr4 201 70 146 59) (Arr4 141 55 81 109))"
  apply (simp add: block_struct)
  apply (simp add: block_ev schedule_S1 schedule_S1_Suc)
  done

lemma Z_block:
  "Cipher_block 10 (Expansion past (Arr4 0xa6d2ae2816157e2b 0x3c4fcf098815f7ab 0 0) 4) (state_array_at [0, 0, 0, 0, 0, 0, 0, 0, 0, 0, 0, 0, 0, 0, 0, 0] 0)
   = (Arr4 (Arr4 76 125 227 217) (Arr4 148 18 198 154) (Arr4 201 70 146 59) (Arr4 141 55 81 109))"
  unfolding Cipher_block_def
  by (simp add: upt_9 Z_start Z_round1 Z_round2 Z_round3 Z_round4 Z_round5 Z_round6 Z_round7 Z_round8 Z_round9 Z_final)

lemma Z_Cipher:
  "Cipher past [0, 0, 0, 0, 0, 0, 0, 0, 0, 0, 0, 0, 0, 0, 0, 0] (Arr4 0xa6d2ae2816157e2b 0x3c4fcf098815f7ab 0 0) 10
   = Inr [76, 125, 227, 217, 148, 18, 198, 154, 201, 70, 146, 59, 141, 55, 81, 109]"
proof -
  have w: "Schedule past (Arr4 0xa6d2ae2816157e2b 0x3c4fcf098815f7ab 0 0) 10 = Inr (Expansion past (Arr4 0xa6d2ae2816157e2b 0x3c4fcf098815f7ab 0 0) 4)"
    by (simp add: Schedule_def)
  have s: "split_arrays [0, 0, 0, 0, 0, 0, 0, 0, 0, 0, 0, 0, 0, 0, 0, 0] 0 = [state_array_at [0, 0, 0, 0, 0, 0, 0, 0, 0, 0, 0, 0, 0, 0, 0, 0] 0]"
    by (simp add: split_arrays_step split_nil)
  show ?thesis
    unfolding Cipher_valid [OF w] s
    by (simp add: Z_block unravel_array_cells cell_def)
qed

lemma J1_start:
  "AddRoundKey_array 0 (Expansion past (Arr4 0xa6d2ae2816157e2b 0x3c4fcf098815f7ab 0 0) 4) (state_array_at [0, 0, 0, 0, 0, 0, 0, 0, 0, 0, 0, 0, 0, 0, 0, 1] 0)
   = (Arr4 (Arr4 43 40 171 9) (Arr4 126 174 247 207) (Arr4 21 210 21 79) (Arr4 22 166 136 61))"
  by (simp add: AddRoundKey_array_def state_array_at_def build_def mk4_def cell_def byte_of_def schedule_S1 schedule_S1_Suc)

lemma J1_round1:
  "AddRoundKey_array (Suc 0) (Expansion past (Arr4 0xa6d2ae2816157e2b 0x3c4fcf098815f7ab 0 0) 4) (MixColumns_array (ShiftRows_array (SubBytes_array
     (Arr4 (Arr4 43 40 171 9) (Arr4 126 174 247 207) (Arr4 21 210 21 79) (Arr4 22 166 136 61)))))
   = (Arr4 (Arr4 112 6 141 177) (Arr4 131 5 240 148) (Arr4 169 112 100 181) (Arr4 174 37 138 4))"
  apply (simp add: block_struct)
  apply (simp add: block_ev schedule_S1 schedule_S1_Suc)
  done

lemma J1_round2:
  "AddRoundKey_array (Suc (Suc 0)) (Expansion past (Arr4 0xa6d2ae2816157e2b 0x3c4fcf098815f7ab 0 0) 4) (MixColumns_array (ShiftRows_array (SubBytes_array
     (Arr4 (Arr4 112 6 141 177) (Arr4 131 5 240 148) (Arr4 169 112 100 181) (Arr4 174 37 138 4)))))
   = (Arr4 (Arr4 125 139 201 22) (Arr4 47 124 92 60) (Arr4 2 164 164 203) (Arr4 95 50 0 11))"
  apply (simp add: block_struct)
  apply (simp add: block_ev schedule_S1 schedule_S1_Suc)
  done

lemma J1_round3:
  "AddRoundKey_array (3) (Expansion past (Arr4 0xa6d2ae2816157e2b 0x3c4fcf098815f7ab 0 0) 4) (MixColumns_array (ShiftRows_array (SubBytes_array
     (Arr4 (Arr4 125 139 201 22) (Arr4 47 124 92 60) (Arr4 2 164 164 203) (Arr4 95 50 0 11)))))
   = (Arr4 (Arr4 251 88 15 40) (Arr4 95 151 255 128) (Arr4 149 66 163 89) (Arr4 23 166 121 83))"
  apply (simp add: block_struct)
  apply (simp add: block_ev schedule_S1 schedule_S1_Suc)
  done

lemma J1_round4:
  "AddRoundKey_array (4) (Expansion past (Arr4 0xa6d2ae2816157e2b 0x3c4fcf098815f7ab 0 0) 4) (MixColumns_array (ShiftRows_array (SubBytes_array
     (Arr4 (Arr4 251 88 15 40) (Arr4 95 151 255 128) (Arr4 149 66 163 89) (Arr4 23 166 121 83)))))
   = (Arr4 (Arr4 101 159 216 8) (Arr4 222 61 59 80) (Arr4 4 86 189 77) (Arr4 5 154 129 219))"
  apply (simp add: block_struct)
  apply (simp add: block_ev schedule_S1 schedule_S1_Suc)
  done

lemma J1_round5:
  "AddRoundKey_array (5) (Expansion past (Arr4 0xa6d2ae2816157e2b 0x3c4fcf098815f7ab 0 0) 4) (MixColumns_array (ShiftRows_array (SubBytes_array
     (Arr4 (Arr4 101 159 216 8) (Arr4 222 61 59 80) (Arr4 4 86 189 77) (Arr4 5 154 129 219)))))
   = (Arr4 (Arr4 210 190 163 84) (Arr4 221 12 91 173) (Arr4 2 22 17 254) (Arr4 253 11 51 26))"
  apply (simp add: block_struct)
  apply (simp add: block_ev schedule_S1 schedule_S1_Suc)
  done

lemma J1_round6:
  "AddRoundKey_array (6) (Expansion past (Arr4 0xa6d2ae2816157e2b 0x3c4fcf098815f7ab 0 0) 4) (MixColumns_array (ShiftRows_array (SubBytes_array
     (Arr4 (Arr4 210 190 163 84) (Arr4 221 12 91 173) (Arr4 2 22 17 254) (Arr4 253 11 51 26)))))
   = (Arr4 (Arr4 176 31 54 207) (Arr4 9 199 50 130) (Arr4 75 146 184 81) (Arr4 187 136 87 76))"
  apply (simp add: block_struct)
  apply (simp add: block_ev schedule_S1 schedule_S1_Suc)
  done

lemma J1_round7:
  "AddRoundKey_array (7) (Expansion past (Arr4 0xa6d2ae2816157e2b 0x3c4fcf098815f7ab 0 0) 4) (MixColumns_array (ShiftRows_array (SubBytes_array
     (Arr4 (Arr4 176 31 54 207) (Arr4 9 199 50 130) (Arr4 75 146 184 81) (Arr4 187 136 87 76)))))
   = (Arr4 (Arr4 239 177 65 33) (Arr4 140 128 76 55) (Arr4 9 49 17 168) (Arr4 255 55 255 206))"
  apply (simp add: block_struct)
  apply (simp add: block_ev schedule_S1 schedule_S1_Suc)
  done

lemma J1_round8:
  "AddRoundKey_array (8) (Expansion past (Arr4 0xa6d2ae2816157e2b 0x3c4fcf098815f7ab 0 0) 4) (MixColumns_array (ShiftRows_array (SubBytes_array
     (Arr4 (Arr4 239 177 65 33) (Arr4 140 128 76 55) (Arr4 9 49 17 168) (Arr4 255 55 255 206)))))
   = (Arr4 (Arr4 6 242 242 170) (Arr4 22 41 189 157) (Arr4 142 7 71 192) (Arr4 10 88 86 114))"
  apply (simp add: block_struct)
  apply (simp add: block_ev schedule_S1 schedule_S1_Suc)
  done

lemma J1_round9:
  "AddRoundKey_array (9) (Expansion past (Arr4 0xa6d2ae2816157e2b 0x3c4fcf098815f7ab 0 0) 4) (MixColumns_array (ShiftRows_array (SubBytes_array
     (Arr4 (Arr4 6 242 242 170) (Arr4 22 41 189 157) (Arr4 142 7 71 192) (Arr4 10 88 86 114)))))
   = (Arr4 (Arr4 41 220 113 134) (Arr4 239 133 13 230) (Arr4 7 98 157 132) (Arr4 208 120 106 166))"
  apply (simp add: block_struct)
  apply (simp add: block_ev schedule_S1 schedule_S1_Suc)
  done

lemma J1_final:
  "AddRoundKey_array 9 (Expansion past (Arr4 0xa6d2ae2816157e2b 0x3c4fcf098815f7ab 0 0) 4) (ShiftRows_array (SubBytes_array
     (Arr4 (Arr4 41 220 113 134) (Arr4 239 133 13 230) (Arr4 7 98 157 132) (Arr4 208 120 106 166))))
   = (Arr4 (Arr4 70 206 126 150) (Arr4 247 157 27 92) (Arr4 153 205 166 126) (Arr4 46 164 114 204))"
  apply (simp add: block_struct)
  apply (simp add: block_ev schedule_S1 schedule_S1_Suc)
  done

lemma J1_block:
  "Cipher_block 10 (Expansion past (Arr4 0xa6d2ae2816157e2b 0x3c4fcf098815f7ab 0 0) 4) (state_array_at [0, 0, 0, 0, 0, 0, 0, 0, 0, 0, 0, 0, 0, 0, 0, 1] 0)
   = (Arr4 (Arr4 70 206 126 150) (Arr4 247 157 27 92) (Arr4 153 205 166 126) (Arr4 46 164 114 204))"
  unfolding Cipher_block_def
  by (simp add: upt_9 J1_start J1_round1 J1_round2 J1_round3 J1_round4 J1_round5 J1_round6 J1_round7 J1_round8 J1_round9 J1_final)

lemma J1_Cipher:
  "Cipher past [0, 0, 0, 0, 0, 0, 0, 0, 0, 0, 0, 0, 0, 0, 0, 1] (Arr4 0xa6d2ae2816157e2b 0x3c4fcf098815f7ab 0 0) 10
   = Inr [70, 206, 126, 150, 247, 157, 27, 92, 153, 205, 166, 126, 46, 164, 114, 204]"
proof -
  have w: "Schedule past (Arr4 0xa6d2ae2816157e2b 0x3c4fcf098815f7ab 0 0) 10 = Inr (Expansion past (Arr4 0xa6d2ae2816157e2b 0x3c4fcf098815f7ab 0 0) 4)"
    by (simp add: Schedule_def)
  have s: "split_arrays [0, 0, 0, 0, 0, 0, 0, 0, 0, 0, 0, 0, 0, 0, 0, 1] 0 = [state_array_at [0, 0, 0, 0, 0, 0, 0, 0, 0, 0, 0, 0, 0, 0, 0, 1] 0]"
    by (simp add: split_arrays_step split_nil)
  show ?thesis
    unfolding Cipher_valid [OF w] s
    by (simp add: J1_block unravel_array_cells cell_def)
qed

section \<open>The example vector\<close>

lemma key_S1:
  "key_of_string [43, 126, 21, 22, 40, 174, 210, 166, 171, 247, 21, 136, 9, 207, 79, 60] 2
   = Arr4 0xa6d2ae2816157e2b 0x3c4fcf098815f7ab 0 0"
  by (simp add: key_of_string_def mk4_def word64_of_bytes_def)

text \<open>
  C3: for the block \<open>6bc1bee2 2e409f96 e93d7e11 7393172a\<close> and the key
  \<open>2b7e1516 28aed2a6 abf71588 09cf4f3c\<close> loaded as two little-endian 64-bit words, with
  ten rounds, \<open>Cipher\<close> returns \<open>b03a8d5f 77e552f5 d1e13448 534adad2\<close>, which is not the
  ciphertext \<open>3ad77bb4 0d7a3660 a89ecaf3 2466ef97\<close> of the standard.
\<close>

theorem Cipher_FIPS_vector:
  "Cipher past [107, 193, 190, 226, 46, 64, 159, 150, 233, 61, 126, 17, 115, 147, 23, 42]
     (key_of_string [43, 126, 21, 22, 40, 174, 210, 166, 171, 247, 21, 136, 9, 207, 79, 60] 2) 10
   = Inr [176, 58, 141, 95, 119, 229, 82, 245, 209, 225, 52, 72, 83, 74, 218, 210]
   \<and> [176, 58, 141, 95, 119, 229, 82, 245, 209, 225, 52, 72, 83, 74, 218, 210]
     \<noteq> [58, 215, 123, 180, 13, 122, 54, 96, 168, 158, 202, 243, 36, 102, 239, 151 :: byte]"
  by (simp add: key_S1 S1_Cipher)

section \<open>The hash subkey\<close>

text \<open>
  C2: the hash subkey that \<open>Enc\<close> and \<open>Dec\<close> compute is the zero block, for every key
  and each of the three round counts; the encryption of the all-zero block under the
  example key with ten rounds is \<open>4c7de3d9 9412c69a c946923b 8d37516d\<close>, which is not the
  zero block.
\<close>

theorem hash_subkey_is_zero_block:
  "hash_subkey past k 10 = Inr zero_array
   \<and> hash_subkey past k 12 = Inr zero_array
   \<and> hash_subkey past k 14 = Inr zero_array
   \<and> Cipher past [0, 0, 0, 0, 0, 0, 0, 0, 0, 0, 0, 0, 0, 0, 0, 0]
         (Arr4 0xa6d2ae2816157e2b 0x3c4fcf098815f7ab 0 0) 10
     = Inr [76, 125, 227, 217, 148, 18, 198, 154, 201, 70, 146, 59, 141, 55, 81, 109]
   \<and> state_array_of [76, 125, 227, 217, 148, 18, 198, 154, 201, 70, 146, 59, 141, 55, 81, 109]
     \<noteq> zero_array"
  apply (simp add: hash_subkey_zero Z_Cipher)
  apply (simp add: state_array_of_def zero_array_eq build_def mk4_def)
  done

section \<open>Modified ciphertexts\<close>

lemma Schedule_10: "Schedule past k 10 = Inr (Expansion past k 4)"
  by (simp add: Schedule_def)

lemma increment_zero:
  "increment zero_array = Arr4 (Arr4 0 0 0 0) (Arr4 0 0 0 0) (Arr4 0 0 0 0) (Arr4 0 0 0 1)"
  by (simp add: increment_def zero_array_eq cell_def build_def mk4_def)

lemma GCTR_single:
  assumes "Cipher past (unravel_array ICB) k Nr = Inr c"
  shows "GCTR past \<lparr>arrays = [A], expanded = w, key = k, rounds = Nr\<rparr> ICB
         = Inr \<lparr>arrays = [xor_arr A (state_array_of c)], expanded = w, key = k, rounds = Nr\<rparr>"
  using assms by (simp add: GCTR_def)

lemma unravel_zero: "unravel_array zero_array = [0, 0, 0, 0, 0, 0, 0, 0, 0, 0, 0, 0, 0, 0, 0, 0]"
  by (simp add: unravel_array_cells cell_zero)

lemma unravel_one:
  "unravel_array (Arr4 (Arr4 0 0 0 0) (Arr4 0 0 0 0) (Arr4 0 0 0 0) (Arr4 0 0 0 1))
   = [0, 0, 0, 0, 0, 0, 0, 0, 0, 0, 0, 0, 0, 0, 0, 1]"
  by (simp add: unravel_array_cells cell_def)

lemma state_array_at_0: "state_array_at inp 0 = state_array_of inp"
  unfolding state_array_at_def state_array_of_def by (intro build_cong) simp

lemmas arr_ev = state_array_of_def xor_arr_def build_def mk4_def cell_def unravel_array_cells

lemma Enc_S5:
  "Enc past [65, 65, 65, 65, 65, 65, 65, 65, 65, 65, 65, 65, 65, 65, 65, 65]
     (Arr4 0xa6d2ae2816157e2b 0x3c4fcf098815f7ab 0 0) 10 n
   = Inr ([7, 143, 63, 215, 182, 220, 90, 29, 216, 140, 231, 63, 111, 229, 51, 141]
          @ [76, 125, 227, 217, 148, 18, 198, 154, 201, 70, 146, 59, 141, 55, 81, 109])"
  apply (simp add: Enc_def hash_subkey_zero state_of_string_def state_of_arrays_def Schedule_10
      GHASH_zero Let_def split_arrays_step split_nil state_array_at_0 increment_zero
      GCTR_single [OF J1_Cipher [unfolded unravel_one [symmetric]]]
      GCTR_single [OF Z_Cipher [unfolded unravel_zero [symmetric]]] unravel_def)
  apply (simp add: arr_ev zero_array_eq)
  done

lemma Dec_S5_cipher_flip:
  "Dec past ([6, 143, 63, 215, 182, 220, 90, 29, 216, 140, 231, 63, 111, 229, 51, 141]
          @ [76, 125, 227, 217, 148, 18, 198, 154, 201, 70, 146, 59, 141, 55, 81, 109])
     (Arr4 0xa6d2ae2816157e2b 0x3c4fcf098815f7ab 0 0) 10 n
   = Inr [64, 65, 65, 65, 65, 65, 65, 65, 65, 65, 65, 65, 65, 65, 65, 65]"
  apply (simp add: Dec_def hash_subkey_zero state_of_string_def state_of_arrays_def Schedule_10
      GHASH_zero Let_def split_arrays_step split_nil state_array_at_0 increment_zero
      GCTR_single [OF J1_Cipher [unfolded unravel_one [symmetric]]]
      GCTR_single [OF Z_Cipher [unfolded unravel_zero [symmetric]]] unravel_def)
  apply (simp add: arr_ev zero_array_eq)
  done

lemma Dec_S5_tag_flip:
  "Dec past ([7, 143, 63, 215, 182, 220, 90, 29, 216, 140, 231, 63, 111, 229, 51, 141]
          @ [77, 125, 227, 217, 148, 18, 198, 154, 201, 70, 146, 59, 141, 55, 81, 109])
     (Arr4 0xa6d2ae2816157e2b 0x3c4fcf098815f7ab 0 0) 10 n
   = Inl AuthenticationFailure"
  apply (simp add: Dec_def hash_subkey_zero state_of_string_def state_of_arrays_def Schedule_10
      GHASH_zero Let_def split_arrays_step split_nil state_array_at_0 increment_zero
      GCTR_single [OF J1_Cipher [unfolded unravel_one [symmetric]]]
      GCTR_single [OF Z_Cipher [unfolded unravel_zero [symmetric]]] unravel_def)
  apply (simp add: arr_ev zero_array_eq)
  done

text \<open>
  C1: for the sixteen-byte message \<open>AAAAAAAAAAAAAAAA\<close>, the example key, ten rounds and
  any nonce, \<open>Enc\<close> returns the ciphertext block \<open>078f3fd7 b6dc5a1d d88ce73f 6fe5338d\<close>
  followed by the tag \<open>4c7de3d9 9412c69a c946923b 8d37516d\<close>.  With the lowest bit of
  the first ciphertext byte flipped, \<open>Dec\<close> raises nothing and returns the message with
  its first byte changed; with the lowest bit of the first tag byte flipped it raises
  the authentication failure.
\<close>

theorem Dec_accepts_modified_ciphertext:
  "Enc past [65, 65, 65, 65, 65, 65, 65, 65, 65, 65, 65, 65, 65, 65, 65, 65]
     (Arr4 0xa6d2ae2816157e2b 0x3c4fcf098815f7ab 0 0) 10 n
   = Inr ([7, 143, 63, 215, 182, 220, 90, 29, 216, 140, 231, 63, 111, 229, 51, 141]
          @ [76, 125, 227, 217, 148, 18, 198, 154, 201, 70, 146, 59, 141, 55, 81, 109])
   \<and> Dec past ([6, 143, 63, 215, 182, 220, 90, 29, 216, 140, 231, 63, 111, 229, 51, 141]
          @ [76, 125, 227, 217, 148, 18, 198, 154, 201, 70, 146, 59, 141, 55, 81, 109])
     (Arr4 0xa6d2ae2816157e2b 0x3c4fcf098815f7ab 0 0) 10 n
   = Inr [64, 65, 65, 65, 65, 65, 65, 65, 65, 65, 65, 65, 65, 65, 65, 65]
   \<and> Dec past ([7, 143, 63, 215, 182, 220, 90, 29, 216, 140, 231, 63, 111, 229, 51, 141]
          @ [77, 125, 227, 217, 148, 18, 198, 154, 201, 70, 146, 59, 141, 55, 81, 109])
     (Arr4 0xa6d2ae2816157e2b 0x3c4fcf098815f7ab 0 0) 10 n
   = Inl AuthenticationFailure"
  using Enc_S5 [of past n] Dec_S5_cipher_flip [of past n] Dec_S5_tag_flip [of past n]
  by (simp del: append.simps)

end
